theory Spec2Isabelle
  imports Main
begin

section \<open>Library model: strings and paths (Go \<open>strings\<close>, \<open>path/filepath\<close> on Unix)\<close>

text \<open>
  The program calls \<open>filepath.Base\<close>, \<open>Ext\<close>, \<open>Dir\<close>, \<open>Join\<close>, \<open>Rel\<close> and
  \<open>strings.TrimSuffix\<close>. They are standard-library functions; the definitions below
  follow their documented behaviour for the separator \<open>/\<close> (no volume names).
  A Go string is a byte sequence: \<open>string\<close>.
\<close>

abbreviation Separator :: char where
  "Separator \<equiv> CHR ''/''"

text \<open>\<open>strings.Split(s, "/")\<close>: the pieces between separators, at least one piece.\<close>

fun split_sep :: "string \<Rightarrow> string list" where
  "split_sep [] = [[]]"
| "split_sep (c # cs) =
     (if c = Separator then [] # split_sep cs
      else (case split_sep cs of [] \<Rightarrow> [[c]] | w # ws \<Rightarrow> (c # w) # ws))"

text \<open>\<open>strings.Join(elems, "/")\<close>.\<close>

fun join_sep :: "string list \<Rightarrow> string" where
  "join_sep [] = []"
| "join_sep [e] = e"
| "join_sep (e # es) = e @ Separator # join_sep es"

text \<open>
  \<open>filepath.Clean\<close>: empty and \<open>.\<close> elements are dropped, an inner \<open>..\<close> removes the
  element before it, a \<open>..\<close> that would climb above the root of a rooted path is dropped,
  a leading \<open>..\<close> of a relative path is kept; the empty result is \<open>.\<close>.
  \<open>clean_elem\<close> is one turn of the library's loop on the element \<open>e\<close>, with \<open>out\<close> the
  elements written so far.
\<close>

definition clean_elem :: "bool \<Rightarrow> string list \<Rightarrow> string \<Rightarrow> string list" where
  "clean_elem rooted out e =
     (if e = [] \<or> e = ''.'' then out
      else if e = ''..'' then
        (if out \<noteq> [] \<and> last out \<noteq> ''..'' then butlast out
         else if rooted then out
         else out @ [''..''])
      else out @ [e])"

definition Clean :: "string \<Rightarrow> string" where
  "Clean path =
     (if path = [] then ''.''
      else
        let rooted = (hd path = Separator);
            out = foldl (clean_elem rooted) [] (split_sep path);
            s = (if rooted then [Separator] else []) @ join_sep out
        in if s = [] then ''.'' else s)"

text \<open>\<open>filepath.Join\<close>: leading empty elements are ignored, the rest is joined and cleaned.\<close>

definition Join :: "string list \<Rightarrow> string" where
  "Join elem =
     (case dropWhile (\<lambda>e. e = []) elem of
        [] \<Rightarrow> []
      | es \<Rightarrow> Clean (join_sep es))"

text \<open>
  \<open>filepath.Base\<close>: the last element of the path, trailing separators removed first;
  \<open>.\<close> for the empty path and \<open>/\<close> for a path of separators only.
\<close>

definition strip_trailing_sep :: "string \<Rightarrow> string" where
  "strip_trailing_sep path = rev (dropWhile (\<lambda>c. c = Separator) (rev path))"

definition Base :: "string \<Rightarrow> string" where
  "Base path =
     (if path = [] then ''.''
      else
        let p = strip_trailing_sep path
        in if p = [] then [Separator] else last (split_sep p))"

text \<open>
  \<open>filepath.Ext\<close>: the suffix starting at the final dot of the final element, or empty.
  The library scans from the end and stops at a separator.
\<close>

fun ext_scan :: "string \<Rightarrow> string \<Rightarrow> string" where
  "ext_scan [] acc = []"
| "ext_scan (c # cs) acc =
     (if c = Separator then []
      else if c = CHR ''.'' then c # acc
      else ext_scan cs (c # acc))"

definition Ext :: "string \<Rightarrow> string" where
  "Ext path = ext_scan (rev path) []"

text \<open>\<open>strings.HasSuffix\<close> and \<open>strings.TrimSuffix\<close>.\<close>

definition HasSuffix :: "string \<Rightarrow> string \<Rightarrow> bool" where
  "HasSuffix s suffix =
     (length suffix \<le> length s \<and> drop (length s - length suffix) s = suffix)"

definition TrimSuffix :: "string \<Rightarrow> string \<Rightarrow> string" where
  "TrimSuffix s suffix =
     (if HasSuffix s suffix then take (length s - length suffix) s else s)"

text \<open>
  \<open>filepath.Dir\<close>: everything up to and including the last separator, cleaned.
\<close>

definition Dir :: "string \<Rightarrow> string" where
  "Dir path = Clean (rev (dropWhile (\<lambda>c. c \<noteq> Separator) (rev path)))"

text \<open>
  \<open>filepath.Rel\<close>: both paths are cleaned; equal paths give \<open>.\<close>; a rooted and an
  unrooted path cannot be related; otherwise the common leading elements are dropped, one
  \<open>..\<close> is written for each remaining element of the base, and the rest of the target
  follows. A base or a target that cleans to \<open>.\<close> has no elements. The library fails
  when the first element of the base that the target does not share is \<open>..\<close>.
  \<open>rel_elems\<close> are the elements its scan sees in a cleaned path.
\<close>

datatype error = SkipDir | SkipAll | ErrOS

definition rel_elems :: "string \<Rightarrow> string list" where
  "rel_elems p = (if p = [] then [] else if p = [Separator] then [[]] else split_sep p)"

fun rel_diff :: "string list \<Rightarrow> string list \<Rightarrow> error + string" where
  "rel_diff (b # bs) (t # ts) =
     (if b = t then rel_diff bs ts
      else if b = ''..'' then Inl ErrOS
      else Inr (join_sep (replicate (length (b # bs)) ''..'' @ (t # ts))))"
| "rel_diff [] ts = Inr (join_sep ts)"
| "rel_diff (b # bs) [] =
     (if b = ''..'' then Inl ErrOS
      else Inr (join_sep (replicate (length (b # bs)) ''..'')))"

definition Rel :: "string \<Rightarrow> string \<Rightarrow> error + string" where
  "Rel basepath targpath =
     (let base = Clean basepath; targ = Clean targpath
      in if targ = base then Inr ''.''
         else
           let base' = (if base = ''.'' then [] else base);
               targ' = (if targ = ''.'' then [] else targ);
               baseSlashed = (base' \<noteq> [] \<and> hd base' = Separator);
               targSlashed = (targ' \<noteq> [] \<and> hd targ' = Separator)
           in if baseSlashed \<noteq> targSlashed then Inl ErrOS
              else rel_diff (rel_elems base') (rel_elems targ'))"

section \<open>Library model: time\<close>

text \<open>
  A \<open>time.Time\<close> that is only compared (\<open>ModTime\<close>, \<open>lastRun\<close>) is an instant on a line:
  an integer count of time units. \<open>Time.After\<close> is the strict order of instants.
\<close>

type_synonym instant = int

definition After :: "instant \<Rightarrow> instant \<Rightarrow> bool" where
  "After t u = (t > u)"

text \<open>
  \<open>processStart\<close> is only formatted. \<open>wallclock\<close> holds what \<open>Time.Date\<close> and
  \<open>Time.Clock\<close> report for it.
\<close>

record wallclock =
  Year :: int
  Month :: nat
  Day :: nat
  Hour :: nat
  Minute :: nat
  Second :: nat

definition digit :: "nat \<Rightarrow> char" where
  "digit d = char_of (48 + d)"

fun utoa :: "nat \<Rightarrow> string" where
  "utoa n = (if n < 10 then [digit n] else utoa (n div 10) @ [digit (n mod 10)])"

declare utoa.simps [simp del]

text \<open>The library's \<open>appendInt\<close>: a sign for a negative number, then zero padding to \<open>width\<close>.\<close>

definition appendInt :: "int \<Rightarrow> nat \<Rightarrow> string" where
  "appendInt x width =
     (let ds = utoa (nat \<bar>x\<bar>)
      in (if x < 0 then ''-'' else []) @ replicate (width - length ds) (CHR ''0'') @ ds)"

text \<open>\<open>t.Format("20060102150405")\<close>: year, month, day, hour, minute, second.\<close>

definition Format_stamp :: "wallclock \<Rightarrow> string" where
  "Format_stamp t =
     appendInt (Year t) 4 @ appendInt (int (Month t)) 2 @ appendInt (int (Day t)) 2 @
     appendInt (int (Hour t)) 2 @ appendInt (int (Minute t)) 2 @ appendInt (int (Second t)) 2"

section \<open>Library model: the file tree and \<open>filepath.Walk\<close>\<close>

text \<open>
  What a walk finds at a path: nothing that \<open>Lstat\<close> can report (\<open>Missing\<close>), an entry that
  is not a directory (\<open>File\<close>, with its modification time), a directory with the entries
  that reading it returns, in that order (the library sorts them by name; nothing here
  depends on the order) (\<open>Directory\<close>), or a directory that cannot be read
  (\<open>Unreadable\<close>). Directories carry their modification time too.
\<close>

datatype fsnode =
    Missing
  | File instant
  | Directory instant "(string \<times> fsnode) list"
  | Unreadable instant

record fileInfo =
  fi_Name :: string
  fi_IsDir :: bool
  fi_ModTime :: instant

fun node_IsDir :: "fsnode \<Rightarrow> bool" where
  "node_IsDir (Directory t es) = True"
| "node_IsDir (Unreadable t) = True"
| "node_IsDir n = False"

fun node_ModTime :: "fsnode \<Rightarrow> instant" where
  "node_ModTime (File t) = t"
| "node_ModTime (Directory t es) = t"
| "node_ModTime (Unreadable t) = t"
| "node_ModTime Missing = 0"

text \<open>\<open>os.Lstat\<close>: the name of the info is the last element of the path asked for.\<close>

definition Lstat :: "string \<Rightarrow> fsnode \<Rightarrow> error + fileInfo" where
  "Lstat path n =
     (case n of
        Missing \<Rightarrow> Inl ErrOS
      | _ \<Rightarrow> Inr \<lparr>fi_Name = Base path, fi_IsDir = node_IsDir n, fi_ModTime = node_ModTime n\<rparr>)"

text \<open>
  The callback of a walk gets the path, the info (nil when \<open>Lstat\<close> failed) and the error
  met at that path; it returns an error or nil. The variables it captures are the state
  \<open>'s\<close>, passed in and returned.
\<close>

type_synonym 's WalkFunc =
  "string \<Rightarrow> fileInfo option \<Rightarrow> error option \<Rightarrow> 's \<Rightarrow> error option \<times> 's"

definition info_of :: "string \<Rightarrow> fsnode \<Rightarrow> fileInfo option" where
  "info_of path n = (case Lstat path n of Inl e \<Rightarrow> None | Inr i \<Rightarrow> Some i)"

text \<open>
  The library's recursive \<open>walk\<close>. A non-directory is handed to the callback. A directory
  is read, then handed to the callback together with the error of reading it; if either
  failed, the callback's answer is returned. Otherwise each entry is visited in turn: for
  an entry whose \<open>Lstat\<close> fails the callback decides, and only an error other than
  \<open>SkipDir\<close> stops the loop; for the others the walk recurses, and an error stops the loop
  unless it is \<open>SkipDir\<close> returned for a directory. The library never calls \<open>walk\<close> on a
  path whose \<open>Lstat\<close> failed; the equation for \<open>Missing\<close> is what its callers do there.
\<close>

fun walk :: "'s WalkFunc \<Rightarrow> string \<Rightarrow> fsnode \<Rightarrow> 's \<Rightarrow> error option \<times> 's"
  and walk_names :: "'s WalkFunc \<Rightarrow> string \<Rightarrow> (string \<times> fsnode) list \<Rightarrow> 's \<Rightarrow> error option \<times> 's"
where
  "walk walkFn path (Directory t es) s =
     (case walkFn path (info_of path (Directory t es)) None s of
        (Some err1, s1) \<Rightarrow> (Some err1, s1)
      | (None, s1) \<Rightarrow> walk_names walkFn path es s1)"
| "walk walkFn path (Unreadable t) s =
     walkFn path (info_of path (Unreadable t)) (Some ErrOS) s"
| "walk walkFn path (File t) s = walkFn path (info_of path (File t)) None s"
| "walk walkFn path Missing s = walkFn path None (Some ErrOS) s"
| "walk_names walkFn path [] s = (None, s)"
| "walk_names walkFn path ((name, n) # rest) s =
     (let filename = Join [path, name]
      in case n of
           Missing \<Rightarrow>
             (case walkFn filename None (Some ErrOS) s of
                (Some err, s1) \<Rightarrow>
                  if err \<noteq> SkipDir then (Some err, s1) else walk_names walkFn path rest s1
              | (None, s1) \<Rightarrow> walk_names walkFn path rest s1)
         | _ \<Rightarrow>
             (case walk walkFn filename n s of
                (Some err, s1) \<Rightarrow>
                  if \<not> node_IsDir n \<or> err \<noteq> SkipDir then (Some err, s1)
                  else walk_names walkFn path rest s1
              | (None, s1) \<Rightarrow> walk_names walkFn path rest s1))"

text \<open>
  \<open>filepath.Walk\<close>: \<open>Lstat\<close> of the root; on failure the callback is called once with the
  error, otherwise the tree is walked. \<open>SkipDir\<close> and \<open>SkipAll\<close> end the walk with nil.
\<close>

definition Walk :: "string \<Rightarrow> 's WalkFunc \<Rightarrow> fsnode \<Rightarrow> 's \<Rightarrow> error option \<times> 's" where
  "Walk root fn n s =
     (case (case n of
              Missing \<Rightarrow> fn root None (Some ErrOS) s
            | _ \<Rightarrow> walk fn root n s) of
        (err, s1) \<Rightarrow>
          if err = Some SkipDir \<or> err = Some SkipAll then (None, s1) else (err, s1))"

section \<open>The program: data and the tree scan (main.go)\<close>

text \<open>
  \<open>filesData\<close> of the simpler variant has three fields; main.go adds \<open>New\<close>.
\<close>

record filesData0 =
  Name :: string
  Location :: string
  ModTime :: instant

record filesData = filesData0 +
  New :: bool

record pathsConfig =
  InputPath :: string
  OutputPath :: string

text \<open>The zero value \<open>filesData{}\<close>.\<close>

definition filesData_zero :: filesData where
  "filesData_zero = \<lparr>Name = [], Location = [], ModTime = 0, New = False\<rparr>"

text \<open>
  \<open>visitFileInfos\<close>. \<open>lastRun\<close> is a pointer: \<open>None\<close> is nil. The info is nil only when
  \<open>Lstat\<close> failed, and then \<open>err\<close> is not nil and the first branch returns; the walk never
  passes a nil info with a nil error (Go would panic on it), the model gives no record there.
\<close>

definition visitFileInfos ::
  "string \<Rightarrow> fileInfo option \<Rightarrow> error option \<Rightarrow> instant option \<Rightarrow> filesData \<times> bool" where
  "visitFileInfos path info err lastRun =
     (if err \<noteq> None then (filesData_zero, False)
      else case info of
             None \<Rightarrow> (filesData_zero, False)
           | Some i \<Rightarrow>
               if fi_IsDir i then (filesData_zero, False)
               else
                 let new = (case lastRun of None \<Rightarrow> True | Some l \<Rightarrow> After (fi_ModTime i) l)
                 in (\<lparr>Name = fi_Name i, Location = path, ModTime = fi_ModTime i, New = new\<rparr>,
                     True))"

text \<open>The closure that \<open>gatherFiles\<close> passes to the walk; its state is the slice \<open>files\<close>.\<close>

definition gather_fn :: "instant option \<Rightarrow> filesData list WalkFunc" where
  "gather_fn lastRun path info err files =
     (if Base path = ''trash'' then (Some SkipDir, files)
      else
        case visitFileInfos path info err lastRun of
          (fileinfo, ok) \<Rightarrow> (None, if ok then files @ [fileinfo] else files))"

text \<open>\<open>gatherFiles\<close>; \<open>n\<close> is what the file system holds at \<open>path\<close>.\<close>

definition gatherFiles ::
  "string \<Rightarrow> instant option \<Rightarrow> fsnode \<Rightarrow> filesData list \<times> error option" where
  "gatherFiles path lastRun n =
     (case Walk path (gather_fn lastRun) n [] of (err, files) \<Rightarrow> (files, err))"

section \<open>The operating system, as the program sees it\<close>

text \<open>
  The calls the program makes, over a world \<open>'w\<close> of which nothing is assumed. A call that
  can change the world returns the new one. \<open>os_ReadConfig\<close> is \<open>ReadFile("./path.json")\<close>
  followed by \<open>json.Unmarshal\<close>, \<open>os_ReadTime\<close> is \<open>ReadFile("./time.txt")\<close> followed by
  \<open>time.Parse(time.RFC3339, _)\<close>, each with its two ways to fail. \<open>os_WriteTime\<close> is
  \<open>WriteFile("./time.txt", _)\<close> of the formatted start time. \<open>os_Tree\<close> is what a walk
  from a root finds. \<open>os_StatNotExist\<close> is \<open>os.IsNotExist\<close> of the error of \<open>os.Stat\<close>.
\<close>

datatype config_read = ConfigReadErr | ConfigParseErr | ConfigOk pathsConfig

datatype time_read = TimeReadErr | TimeParseErr | TimeOk instant

record 'w OS =
  os_Now :: "'w \<Rightarrow> wallclock"
  os_ReadConfig :: "'w \<Rightarrow> config_read"
  os_ReadTime :: "'w \<Rightarrow> time_read"
  os_StatNotExist :: "string \<Rightarrow> 'w \<Rightarrow> bool"
  os_MkdirAll :: "string \<Rightarrow> 'w \<Rightarrow> error option \<times> 'w"
  os_Tree :: "string \<Rightarrow> 'w \<Rightarrow> fsnode"
  os_OpenLog :: "'w \<Rightarrow> error option \<times> 'w"
  os_Rename :: "string \<Rightarrow> string \<Rightarrow> 'w \<Rightarrow> error option \<times> 'w"
  os_Open :: "string \<Rightarrow> 'w \<Rightarrow> error option"
  os_Create :: "string \<Rightarrow> 'w \<Rightarrow> error option \<times> 'w"
  io_Copy :: "string \<Rightarrow> string \<Rightarrow> 'w \<Rightarrow> error option \<times> 'w"
  os_WriteTime :: "wallclock \<Rightarrow> 'w \<Rightarrow> error option \<times> 'w"

text \<open>
  A run carries the world and a record of what it did: directories it asked to create,
  renames and copies it started, lines it wrote to \<open>file_error.log\<close>, the write of
  \<open>time.txt\<close>. The record is never read by the program.
\<close>

datatype event =
    EvMkdirAll string
  | EvRename string string
  | EvCopyFile string string
  | EvLog string string
  | EvWriteTime wallclock

record 'w run =
  world :: 'w
  events :: "event list"

text \<open>
  How the process ends: \<open>main\<close> returns, \<open>log.Fatal\<close> (message, exit status 1), or
  \<open>os.Exit(1)\<close> in \<open>createIfNotExist\<close>.
\<close>

datatype outcome = Finished | Fatal string | Exit1

definition did :: "event \<Rightarrow> 'w \<Rightarrow> 'w run \<Rightarrow> 'w run" where
  "did e w st = st\<lparr>world := w, events := events st @ [e]\<rparr>"

section \<open>The program: helpers (both variants)\<close>

text \<open>\<open>createIfNotExist\<close>: \<open>Some Exit1\<close> is the call of \<open>os.Exit(1)\<close>.\<close>

definition createIfNotExist :: "'w OS \<Rightarrow> string \<Rightarrow> 'w run \<Rightarrow> outcome option \<times> 'w run" where
  "createIfNotExist os dir st =
     (if os_StatNotExist os dir (world st) then
        (case os_MkdirAll os dir (world st) of
           (errDir, w) \<Rightarrow>
             if errDir \<noteq> None then (Some Exit1, did (EvMkdirAll dir) w st)
             else (None, did (EvMkdirAll dir) w st))
      else (None, st))"

definition moveToTrash :: "'w OS \<Rightarrow> string \<Rightarrow> string \<Rightarrow> 'w run \<Rightarrow> error option \<times> 'w run" where
  "moveToTrash os src dest st =
     (case os_Rename os src dest (world st) of
        (err, w) \<Rightarrow> (err, did (EvRename src dest) w st))"

definition copyFile :: "'w OS \<Rightarrow> string \<Rightarrow> string \<Rightarrow> 'w run \<Rightarrow> error option \<times> 'w run" where
  "copyFile os src dest st =
     (let st0 = did (EvCopyFile src dest) (world st) st
      in case os_Open os src (world st0) of
           Some err \<Rightarrow> (Some err, st0)
         | None \<Rightarrow>
             (case os_Create os dest (world st0) of
                (Some err, w1) \<Rightarrow> (Some err, st0\<lparr>world := w1\<rparr>)
              | (None, w1) \<Rightarrow>
                  (case io_Copy os dest src w1 of
                     (err, w2) \<Rightarrow> (err, st0\<lparr>world := w2\<rparr>))))"

text \<open>\<open>relativePath, _ := filepath.Rel(root, location)\<close>: the error is dropped, the path is empty then.\<close>

definition relativePath :: "string \<Rightarrow> string \<Rightarrow> string" where
  "relativePath root location = (case Rel root location of Inl e \<Rightarrow> [] | Inr r \<Rightarrow> r)"

text \<open>\<open>logger.Println(msg, name)\<close>.\<close>

definition logger_Println :: "string \<Rightarrow> string \<Rightarrow> 'w run \<Rightarrow> 'w run" where
  "logger_Println msg name st = did (EvLog msg name) (world st) st"

section \<open>The program: one run (main.go)\<close>

text \<open>The map \<open>inFilesMap\<close>, filled in the order of the scan: a later record replaces an earlier one.\<close>

fun fill_map ::
  "string \<Rightarrow> (string \<rightharpoonup> 'a filesData0_scheme) \<Rightarrow> 'a filesData0_scheme list \<Rightarrow>
   (string \<rightharpoonup> 'a filesData0_scheme)" where
  "fill_map root m [] = m"
| "fill_map root m (file # files) =
     fill_map root (m(relativePath root (Location file) \<mapsto> file)) files"

text \<open>Lines 145--149: the new name and the new path of an orphan.\<close>

definition newName :: "wallclock \<Rightarrow> 'a filesData0_scheme \<Rightarrow> string" where
  "newName processStart output =
     (let fileExtension = Ext (Name output);
          fileName = TrimSuffix (Name output) fileExtension;
          timeStamp = ''.'' @ Format_stamp processStart
      in fileName @ timeStamp @ fileExtension)"

definition newPath :: "string \<Rightarrow> wallclock \<Rightarrow> 'a filesData0_scheme \<Rightarrow> string" where
  "newPath trashPath processStart output = Join [trashPath, newName processStart output]"

text \<open>The body of the loop over \<open>filesInOutputPath\<close> (lines 142--156).\<close>

definition trash_body ::
  "'w OS \<Rightarrow> pathsConfig \<Rightarrow> (string \<rightharpoonup> 'b) \<Rightarrow> string \<Rightarrow> wallclock \<Rightarrow>
   'a filesData0_scheme \<Rightarrow> 'w run \<Rightarrow> outcome option \<times> 'w run" where
  "trash_body os config inFilesMap trashPath processStart output st =
     (let rel = relativePath (OutputPath config) (Location output)
      in if inFilesMap rel = None then
           (let np = newPath trashPath processStart output
            in case createIfNotExist os (Dir np) st of
                 (Some out, st1) \<Rightarrow> (Some out, st1)
               | (None, st1) \<Rightarrow>
                   (case moveToTrash os (Location output) np st1 of
                      (err, st2) \<Rightarrow>
                        (None, if err \<noteq> None
                               then logger_Println ''Failed moving file to trash: '' (Name output) st2
                               else st2)))
         else (None, st))"

fun trash_loop ::
  "'w OS \<Rightarrow> pathsConfig \<Rightarrow> (string \<rightharpoonup> 'b) \<Rightarrow> string \<Rightarrow> wallclock \<Rightarrow>
   'a filesData0_scheme list \<Rightarrow> 'w run \<Rightarrow> outcome option \<times> 'w run" where
  "trash_loop os config inFilesMap trashPath processStart [] st = (None, st)"
| "trash_loop os config inFilesMap trashPath processStart (output # rest) st =
     (case trash_body os config inFilesMap trashPath processStart output st of
        (Some out, st1) \<Rightarrow> (Some out, st1)
      | (None, st1) \<Rightarrow> trash_loop os config inFilesMap trashPath processStart rest st1)"

text \<open>The body of the loop over \<open>filesInInputPath\<close> (lines 158--171).\<close>

definition copy_body ::
  "'w OS \<Rightarrow> pathsConfig \<Rightarrow> filesData \<Rightarrow> 'w run \<Rightarrow> outcome option \<times> 'w run" where
  "copy_body os config input st =
     (if New input then
        (let rel = relativePath (InputPath config) (Location input);
             source = Join [InputPath config, rel];
             destination = Join [OutputPath config, rel]
         in case createIfNotExist os (Dir destination) st of
              (Some out, st1) \<Rightarrow> (Some out, st1)
            | (None, st1) \<Rightarrow>
                (case copyFile os source destination st1 of
                   (err, st2) \<Rightarrow>
                     (None, if err \<noteq> None
                            then logger_Println ''Failed copying file: '' (Name input) st2
                            else st2)))
      else (None, st))"

fun copy_loop ::
  "'w OS \<Rightarrow> pathsConfig \<Rightarrow> filesData list \<Rightarrow> 'w run \<Rightarrow> outcome option \<times> 'w run" where
  "copy_loop os config [] st = (None, st)"
| "copy_loop os config (input # rest) st =
     (case copy_body os config input st of
        (Some out, st1) \<Rightarrow> (Some out, st1)
      | (None, st1) \<Rightarrow> copy_loop os config rest st1)"

text \<open>Lines 173--176: the start time is written to \<open>time.txt\<close>; failing is fatal.\<close>

definition persist :: "'w OS \<Rightarrow> wallclock \<Rightarrow> 'w run \<Rightarrow> outcome \<times> 'w run" where
  "persist os processStart st =
     (case os_WriteTime os processStart (world st) of
        (err, w) \<Rightarrow>
          if err \<noteq> None then (Fatal ''Failed updating time.txt: '', did (EvWriteTime processStart) w st)
          else (Finished, did (EvWriteTime processStart) w st))"

text \<open>Lines 109--116: the last run, nil when \<open>time.txt\<close> cannot be read or parsed.\<close>

definition lastRun_of :: "time_read \<Rightarrow> instant option" where
  "lastRun_of r = (case r of TimeOk date \<Rightarrow> Some date | _ \<Rightarrow> None)"

text \<open>Lines 118--176, once the configuration is read and the two directories exist.\<close>

definition sync ::
  "'w OS \<Rightarrow> pathsConfig \<Rightarrow> string \<Rightarrow> wallclock \<Rightarrow> 'w run \<Rightarrow> outcome \<times> 'w run" where
  "sync os config trashPath processStart st =
     (let lastRun = lastRun_of (os_ReadTime os (world st))
      in case gatherFiles (InputPath config) lastRun (os_Tree os (InputPath config) (world st)) of
           (filesInInputPath, Some err) \<Rightarrow> (Fatal ''Unable to gather files from input path: '', st)
         | (filesInInputPath, None) \<Rightarrow>
      (case gatherFiles (OutputPath config) None (os_Tree os (OutputPath config) (world st)) of
           (filesInOutputPath, Some err) \<Rightarrow> (Fatal ''Unable to gather files from output path: '', st)
         | (filesInOutputPath, None) \<Rightarrow>
      (let inFilesMap = fill_map (InputPath config) Map.empty filesInInputPath
       in case os_OpenLog os (world st) of
            (Some err, w) \<Rightarrow> (Fatal ''Failed opening file_error.log: '', st\<lparr>world := w\<rparr>)
          | (None, w) \<Rightarrow>
      (case trash_loop os config inFilesMap trashPath processStart filesInOutputPath
              (st\<lparr>world := w\<rparr>) of
            (Some out, st1) \<Rightarrow> (out, st1)
          | (None, st1) \<Rightarrow>
      (case copy_loop os config filesInInputPath st1 of
            (Some out, st2) \<Rightarrow> (out, st2)
          | (None, st2) \<Rightarrow> persist os processStart st2)))))"

definition main :: "'w OS \<Rightarrow> 'w \<Rightarrow> outcome \<times> 'w run" where
  "main os w =
     (let processStart = os_Now os w;
          st = \<lparr>world = w, events = []\<rparr>
      in case os_ReadConfig os w of
           ConfigReadErr \<Rightarrow> (Fatal ''Failed reading path.json: '', st)
         | ConfigParseErr \<Rightarrow> (Fatal ''Failed parsing path.json: '', st)
         | ConfigOk config \<Rightarrow>
             (case createIfNotExist os (OutputPath config) st of
                (Some out, st1) \<Rightarrow> (out, st1)
              | (None, st1) \<Rightarrow>
                  (let trashPath = Join [OutputPath config, ''trash'']
                   in case createIfNotExist os trashPath st1 of
                        (Some out, st2) \<Rightarrow> (out, st2)
                      | (None, st2) \<Rightarrow> sync os config trashPath processStart st2)))"

section \<open>The program: the simpler variant (the second source file)\<close>

text \<open>
  \<open>visitFileInfos\<close> and \<open>gatherFiles\<close> of the simpler variant take no \<open>lastRun\<close> and set no
  \<open>New\<close>; its helpers are those above; its run is \<open>process\<close>.
\<close>

definition filesData0_zero :: filesData0 where
  "filesData0_zero = \<lparr>Name = [], Location = [], ModTime = 0\<rparr>"

definition visitFileInfos0 ::
  "string \<Rightarrow> fileInfo option \<Rightarrow> error option \<Rightarrow> filesData0 \<times> bool" where
  "visitFileInfos0 path info err =
     (if err \<noteq> None then (filesData0_zero, False)
      else case info of
             None \<Rightarrow> (filesData0_zero, False)
           | Some i \<Rightarrow>
               if fi_IsDir i then (filesData0_zero, False)
               else (\<lparr>Name = fi_Name i, Location = path, ModTime = fi_ModTime i\<rparr>, True))"

definition gather_fn0 :: "filesData0 list WalkFunc" where
  "gather_fn0 path info err files =
     (if Base path = ''trash'' then (Some SkipDir, files)
      else
        case visitFileInfos0 path info err of
          (fileinfo, ok) \<Rightarrow> (None, if ok then files @ [fileinfo] else files))"

definition gatherFiles0 :: "string \<Rightarrow> fsnode \<Rightarrow> filesData0 list \<times> error option" where
  "gatherFiles0 path n =
     (case Walk path gather_fn0 n [] of (err, files) \<Rightarrow> (files, err))"




section \<open>A small file system to run the program on\<close>

text \<open>
  A world with the files and directories that exist (by path), the trees that a walk
  finds, the directories that cannot be created, and whether the log and \<open>time.txt\<close> can
  be written. \<open>Rename\<close> replaces a file at the destination, as \<open>os.Rename\<close> does.
  A path below a regular file is not reported as missing (\<open>os.Stat\<close> fails there with
  not-a-directory, which \<open>os.IsNotExist\<close> does not accept), and no directory can be
  created there.
\<close>

record simworld =
  sim_now :: wallclock
  sim_config :: config_read
  sim_time :: time_read
  sim_trees :: "(string \<times> fsnode) list"
  sim_dirs :: "string list"
  sim_files :: "(string \<times> string) list"
  sim_nomkdir :: "string list"
  sim_log_ok :: bool
  sim_time_ok :: bool
  sim_saved :: "wallclock option"

definition put_file :: "string \<Rightarrow> string \<Rightarrow> (string \<times> string) list \<Rightarrow> (string \<times> string) list" where
  "put_file path content fs = (path, content) # filter (\<lambda>e. fst e \<noteq> path) fs"

definition below_file :: "(string \<times> string) list \<Rightarrow> string \<Rightarrow> bool" where
  "below_file fs path =
     list_ex (\<lambda>e. take (Suc (length (fst e))) path = fst e @ [Separator]) fs"

definition sim_Rename :: "string \<Rightarrow> string \<Rightarrow> simworld \<Rightarrow> error option \<times> simworld" where
  "sim_Rename src dest w =
     (case map_of (sim_files w) src of
        None \<Rightarrow> (Some ErrOS, w)
      | Some c \<Rightarrow>
          (None, w\<lparr>sim_files := put_file dest c (filter (\<lambda>e. fst e \<noteq> src) (sim_files w))\<rparr>))"

definition sim_Create :: "string \<Rightarrow> simworld \<Rightarrow> error option \<times> simworld" where
  "sim_Create dest w =
     (if Dir dest \<in> set (sim_dirs w)
      then (None, w\<lparr>sim_files := put_file dest [] (sim_files w)\<rparr>)
      else (Some ErrOS, w))"

definition sim_Copy :: "string \<Rightarrow> string \<Rightarrow> simworld \<Rightarrow> error option \<times> simworld" where
  "sim_Copy dest src w =
     (case map_of (sim_files w) src of
        None \<Rightarrow> (Some ErrOS, w)
      | Some c \<Rightarrow> (None, w\<lparr>sim_files := put_file dest c (sim_files w)\<rparr>))"

definition sim_os :: "simworld OS" where
  "sim_os =
     \<lparr>os_Now = sim_now,
      os_ReadConfig = sim_config,
      os_ReadTime = sim_time,
      os_StatNotExist = (\<lambda>dir w. dir \<notin> set (sim_dirs w) \<and> map_of (sim_files w) dir = None \<and>
                                   \<not> below_file (sim_files w) dir),
      os_MkdirAll = (\<lambda>dir w. if dir \<in> set (sim_nomkdir w) \<or> below_file (sim_files w) dir
                               then (Some ErrOS, w)
                               else (None, w\<lparr>sim_dirs := dir # sim_dirs w\<rparr>)),
      os_Tree = (\<lambda>root w. case map_of (sim_trees w) root of None \<Rightarrow> Missing | Some n \<Rightarrow> n),
      os_OpenLog = (\<lambda>w. if sim_log_ok w then (None, w) else (Some ErrOS, w)),
      os_Rename = sim_Rename,
      os_Open = (\<lambda>src w. if map_of (sim_files w) src = None then Some ErrOS else None),
      os_Create = sim_Create,
      io_Copy = sim_Copy,
      os_WriteTime = (\<lambda>t w. if sim_time_ok w then (None, w\<lparr>sim_saved := Some t\<rparr>)
                              else (Some ErrOS, w))\<rparr>"

section \<open>Notions used in the properties\<close>

text \<open>The rule for \<open>New\<close>, as a predicate on a record.\<close>

definition new_rule :: "instant option \<Rightarrow> filesData \<Rightarrow> bool" where
  "new_rule lastRun f = (New f \<longleftrightarrow> (lastRun = None \<or> (\<exists>l. lastRun = Some l \<and> l < ModTime f)))"

text \<open>
  A plain name: a single path element that is not empty, \<open>.\<close> or \<open>..\<close>.
\<close>

definition plain :: "string \<Rightarrow> bool" where
  "plain name = (Separator \<notin> set name \<and> name \<noteq> [] \<and> name \<noteq> ''.'' \<and> name \<noteq> ''..'')"

text \<open>
  The files below a node, each with the names that lead to it from the node and its
  modification time; \<open>path_at\<close> is the path that the walk builds along such names.
\<close>

fun files_under :: "fsnode \<Rightarrow> (string list \<times> instant) list"
  and files_under_list :: "(string \<times> fsnode) list \<Rightarrow> (string list \<times> instant) list"
where
  "files_under (File t) = [([], t)]"
| "files_under (Directory t es) = files_under_list es"
| "files_under (Unreadable t) = []"
| "files_under Missing = []"
| "files_under_list [] = []"
| "files_under_list ((name, n) # es) =
     map (\<lambda>(ns, t). (name # ns, t)) (files_under n) @ files_under_list es"

definition path_at :: "string \<Rightarrow> string list \<Rightarrow> string" where
  "path_at root ns = foldl (\<lambda>p name. Join [p, name]) root ns"

text \<open>
  A record \<open>f\<close> of a scan of \<open>n\<close> from \<open>root\<close> is placed when it is the record of a file
  of the tree that no element named \<open>trash\<close> leads to.
\<close>

definition placed :: "string \<Rightarrow> fsnode \<Rightarrow> 'a filesData0_scheme \<Rightarrow> bool" where
  "placed root n f =
     (\<exists>(ns, t)\<in>set (files_under n).
        ''trash'' \<notin> set ns \<and> Location f = path_at root ns \<and> ModTime f = t \<and>
        Name f = Base (Location f))"

text \<open>
  The guards of the two loops of \<open>main\<close>, as filters on the scans: an output record is
  an orphan when \<open>inFilesMap\<close> has no entry at its relative path (line 144); an input
  record is copied when \<open>New\<close> is set (line 159).
\<close>

definition orphan :: "pathsConfig \<Rightarrow> (string \<rightharpoonup> 'b) \<Rightarrow> 'a filesData0_scheme \<Rightarrow> bool" where
  "orphan config inFilesMap output =
     (inFilesMap (relativePath (OutputPath config) (Location output)) = None)"

definition orphans ::
  "pathsConfig \<Rightarrow> (string \<rightharpoonup> 'b) \<Rightarrow> 'a filesData0_scheme list \<Rightarrow> 'a filesData0_scheme list" where
  "orphans config inFilesMap filesInOutputPath = filter (orphan config inFilesMap) filesInOutputPath"

definition to_copy :: "filesData list \<Rightarrow> filesData list" where
  "to_copy filesInInputPath = filter New filesInInputPath"

text \<open>The source and the destination of a copy (lines 160--162).\<close>

definition source_of :: "pathsConfig \<Rightarrow> 'a filesData0_scheme \<Rightarrow> string" where
  "source_of config input =
     Join [InputPath config, relativePath (InputPath config) (Location input)]"

definition destination_of :: "pathsConfig \<Rightarrow> 'a filesData0_scheme \<Rightarrow> string" where
  "destination_of config input =
     Join [OutputPath config, relativePath (InputPath config) (Location input)]"

text \<open>The renames and the copies among the events of a run, in order.\<close>

fun renames :: "event list \<Rightarrow> (string \<times> string) list" where
  "renames [] = []"
| "renames (EvRename src dest # es) = (src, dest) # renames es"
| "renames (e # es) = renames es"

fun copies :: "event list \<Rightarrow> (string \<times> string) list" where
  "copies [] = []"
| "copies (EvCopyFile src dest # es) = (src, dest) # copies es"
| "copies (e # es) = copies es"

text \<open>The writes of \<open>time.txt\<close> among the events of a run.\<close>

fun writes :: "event list \<Rightarrow> wallclock list" where
  "writes [] = []"
| "writes (EvWriteTime t # es) = t # writes es"
| "writes (e # es) = writes es"

text \<open>The scans of a run and the map built from the input scan, from the world before them.\<close>

definition filesInInputPath_of :: "'w OS \<Rightarrow> pathsConfig \<Rightarrow> 'w \<Rightarrow> filesData list" where
  "filesInInputPath_of os config w =
     fst (gatherFiles (InputPath config) (lastRun_of (os_ReadTime os w))
            (os_Tree os (InputPath config) w))"

definition filesInOutputPath_of :: "'w OS \<Rightarrow> pathsConfig \<Rightarrow> 'w \<Rightarrow> filesData list" where
  "filesInOutputPath_of os config w =
     fst (gatherFiles (OutputPath config) None (os_Tree os (OutputPath config) w))"

definition inFilesMap_of :: "'w OS \<Rightarrow> pathsConfig \<Rightarrow> 'w \<Rightarrow> (string \<rightharpoonup> filesData)" where
  "inFilesMap_of os config w = fill_map (InputPath config) Map.empty (filesInInputPath_of os config w)"

text \<open>
  The destination that the specification describes for an orphan: the trash root joined with
  the relative directory of the orphan and the new name.
\<close>

definition spec_newPath ::
  "string \<Rightarrow> pathsConfig \<Rightarrow> wallclock \<Rightarrow> 'a filesData0_scheme \<Rightarrow> string" where
  "spec_newPath trashPath config processStart output =
     Join [trashPath, Dir (relativePath (OutputPath config) (Location output)),
           newName processStart output]"

text \<open>
  An example world. The input holds \<open>a.txt\<close> (modified at the last run, instant 10) and
  \<open>s/b.txt\<close> (modified later); the output holds \<open>a.txt\<close>, two orphans of the same name
  in \<open>p\<close> and \<open>q\<close>, and an older file in its trash.
\<close>

definition start0 :: wallclock where
  "start0 = \<lparr>Year = 2024, Month = 1, Day = 2, Hour = 3, Minute = 4, Second = 5\<rparr>"

definition config0 :: pathsConfig where
  "config0 = \<lparr>InputPath = ''in'', OutputPath = ''out''\<rparr>"

definition world0 :: simworld where
  "world0 =
     \<lparr>sim_now = start0,
      sim_config = ConfigOk config0,
      sim_time = TimeOk 10,
      sim_trees =
        [(''in'', Directory 0 [(''a.txt'', File 10), (''s'', Directory 0 [(''b.txt'', File 11)])]),
         (''out'', Directory 0 [(''a.txt'', File 10),
                                (''p'', Directory 0 [(''x.txt'', File 1)]),
                                (''q'', Directory 0 [(''x.txt'', File 2)]),
                                (''trash'', Directory 0 [(''old'', File 0)])])],
      sim_dirs = [''in'', ''in/s'', ''out'', ''out/p'', ''out/q'', ''out/trash''],
      sim_files = [(''in/a.txt'', ''A''), (''in/s/b.txt'', ''B''), (''out/a.txt'', ''a''),
                   (''out/p/x.txt'', ''P''), (''out/q/x.txt'', ''Q''), (''out/trash/old'', ''O'')],
      sim_nomkdir = [],
      sim_log_ok = True,
      sim_time_ok = True,
      sim_saved = None\<rparr>"

text \<open>
  A second example world. The input holds \<open>s/b.txt\<close> and \<open>z.txt\<close>, both modified after
  the last run; the output is empty but for its trash. The file \<open>in/s/b.txt\<close> cannot be
  opened (it is in the tree but not among the readable files).
\<close>

definition world1 :: simworld where
  "world1 =
     \<lparr>sim_now = start0,
      sim_config = ConfigOk config0,
      sim_time = TimeOk 10,
      sim_trees =
        [(''in'', Directory 0 [(''s'', Directory 0 [(''b.txt'', File 11)]), (''z.txt'', File 12)]),
         (''out'', Directory 0 [(''trash'', Directory 0 [])])],
      sim_dirs = [''in'', ''in/s'', ''out'', ''out/trash''],
      sim_files = [(''in/z.txt'', ''Z'')],
      sim_nomkdir = [],
      sim_log_ok = True,
      sim_time_ok = True,
      sim_saved = None\<rparr>"



text \<open>A record of main.go without its \<open>New\<close>: the record of the simpler variant.\<close>

definition strip_New :: "filesData \<Rightarrow> filesData0" where
  "strip_New f = \<lparr>Name = Name f, Location = Location f, ModTime = ModTime f\<rparr>"

text \<open>
  A fourth example world: the input root lies inside the trash of the output tree, and no
  last run is recorded.
\<close>

definition config3 :: pathsConfig where
  "config3 = \<lparr>InputPath = ''out/trash/sub'', OutputPath = ''out''\<rparr>"

definition world3 :: simworld where
  "world3 =
     \<lparr>sim_now = start0,
      sim_config = ConfigOk config3,
      sim_time = TimeReadErr,
      sim_trees =
        [(''out/trash/sub'', Directory 0 [(''f.txt'', File 1)]),
         (''out'', Directory 0
            [(''trash'', Directory 0 [(''sub'', Directory 0 [(''f.txt'', File 1)])])])],
      sim_dirs = [''out'', ''out/trash'', ''out/trash/sub''],
      sim_files = [(''out/trash/sub/f.txt'', ''F'')],
      sim_nomkdir = [],
      sim_log_ok = True,
      sim_time_ok = True,
      sim_saved = None\<rparr>"

text \<open>
  In the small file system a directory is ready when it exists, or when it is reported
  missing and can be created.
\<close>

definition dir_ready :: "simworld \<Rightarrow> string \<Rightarrow> bool" where
  "dir_ready w dir =
     (dir \<in> set (sim_dirs w) \<or>
      (os_StatNotExist sim_os dir w \<and> dir \<notin> set (sim_nomkdir w)))"


section \<open>The walk keeps an invariant of the callback\<close>

lemma walk_invariant_aux:
  shows "(\<forall>path info err s. I s \<longrightarrow> I (snd (fn path info err s))) \<Longrightarrow> I s \<Longrightarrow>
         I (snd (walk fn path n s))"
    and "(\<forall>path info err s. I s \<longrightarrow> I (snd (fn path info err s))) \<Longrightarrow> I s \<Longrightarrow>
         I (snd (walk_names fn path es s))"
proof (induction fn path n s and fn path es s rule: walk_walk_names.induct)
  case (1 walkFn path t es s)
  obtain e s1 where eq: "walkFn path (info_of path (Directory t es)) None s = (e, s1)"
    by (cases "walkFn path (info_of path (Directory t es)) None s") auto
  have s1: "I s1"
    using 1(2,3) eq by (metis snd_conv)
  show ?case
  proof (cases e)
    case None
    then show ?thesis using 1(1)[OF eq[symmetric] None 1(2) s1] eq by simp
  next
    case (Some a)
    then show ?thesis using eq s1 by simp
  qed
next
  case (2 walkFn path t s)
  then show ?case by simp
next
  case (3 walkFn path t s)
  then show ?case by simp
next
  case (4 walkFn path s)
  then show ?case by simp
next
  case (5 walkFn path s)
  then show ?case by simp
next
  case (6 walkFn path name n rest s)
  let ?f = "Join [path, name]"
  note step = 6(12) and Is = 6(13)
  show ?case
  proof (cases n)
    case Missing
    obtain e s1 where eq: "walkFn ?f None (Some ErrOS) s = (e, s1)"
      by (cases "walkFn ?f None (Some ErrOS) s") auto
    have s1: "I s1" using step Is eq by (metis snd_conv)
    show ?thesis
    proof (cases e)
      case None
      then show ?thesis
        using 6(1)[OF refl Missing eq[symmetric] None step s1] eq Missing by simp
    next
      case (Some a)
      then show ?thesis
        using 6(2)[OF refl Missing eq[symmetric] Some _ step s1] eq Missing s1 by simp
    qed
  next
    case (File t)
    obtain e s1 where eq: "walk walkFn ?f n s = (e, s1)"
      by (cases "walk walkFn ?f n s") auto
    have s1: "I s1" using 6(3)[OF refl File step Is] eq by simp
    show ?thesis
    proof (cases e)
      case None
      then show ?thesis
        using 6(4)[OF refl File eq[symmetric] None step s1] eq File by simp
    next
      case (Some a)
      then show ?thesis
        using eq File s1 by simp
    qed
  next
    case (Directory t es)
    obtain e s1 where eq: "walk walkFn ?f n s = (e, s1)"
      by (cases "walk walkFn ?f n s") auto
    have s1: "I s1" using 6(6)[OF refl Directory step Is] eq by simp
    show ?thesis
    proof (cases e)
      case None
      then show ?thesis
        using 6(7)[OF refl Directory eq[symmetric] None step s1] eq Directory by simp
    next
      case (Some a)
      then show ?thesis
        using 6(8)[OF refl Directory eq[symmetric] Some _ step s1] eq Directory s1 by simp
    qed
  next
    case (Unreadable t)
    obtain e s1 where eq: "walk walkFn ?f n s = (e, s1)"
      by (cases "walk walkFn ?f n s") auto
    have s1: "I s1" using 6(9)[OF refl Unreadable step Is] eq by simp
    show ?thesis
    proof (cases e)
      case None
      then show ?thesis
        using 6(10)[OF refl Unreadable eq[symmetric] None step s1] eq Unreadable by simp
    next
      case (Some a)
      then show ?thesis
        using 6(11)[OF refl Unreadable eq[symmetric] Some _ step s1] eq Unreadable s1 by simp
    qed
  qed
qed

lemma Walk_invariant:
  assumes step: "\<And>path info err s. I s \<Longrightarrow> I (snd (fn path info err s))"
    and init: "I s"
  shows "I (snd (Walk root fn n s))"
proof -
  have all: "\<forall>path info err s. I s \<longrightarrow> I (snd (fn path info err s))"
    using step by blast
  have w: "I (snd (walk fn root n s))"
    by (rule walk_invariant_aux(1)[OF all init])
  have m: "I (snd (fn root None (Some ErrOS) s))"
    by (rule step[OF init])
  show ?thesis
    using w m by (cases n) (auto simp: Walk_def split: prod.splits)
qed

section \<open>Which records are new\<close>

lemma gather_fn_new_rule:
  "\<forall>f\<in>set files. new_rule lastRun f \<Longrightarrow>
   \<forall>f\<in>set (snd (gather_fn lastRun path info err files)). new_rule lastRun f"
  by (auto simp: gather_fn_def visitFileInfos_def new_rule_def After_def Let_def
      split: option.splits if_splits)

lemma gatherFiles_new_rule:
  "f \<in> set (fst (gatherFiles path lastRun n)) \<Longrightarrow> new_rule lastRun f"
proof -
  have "\<forall>f\<in>set (snd (Walk path (gather_fn lastRun) n [])). new_rule lastRun f"
    by (rule Walk_invariant[where I = "\<lambda>files. \<forall>f\<in>set files. new_rule lastRun f"])
       (simp_all add: gather_fn_new_rule)
  then show "f \<in> set (fst (gatherFiles path lastRun n)) \<Longrightarrow> new_rule lastRun f"
    by (simp add: gatherFiles_def split: prod.splits)
qed

text \<open>
  C4. Every record of a scan has \<open>New\<close> set exactly when no last run is recorded or the
  modification time of the file is strictly after the last run.
\<close>

theorem gatherFiles_New_iff:
  "\<forall>f\<in>set (fst (gatherFiles path lastRun n)).
     New f \<longleftrightarrow> (lastRun = None \<or> (\<exists>l. lastRun = Some l \<and> l < ModTime f))"
  using gatherFiles_new_rule[of _ path lastRun n] by (auto simp: new_rule_def)

text \<open>
  A file modified exactly at the last run (instant 10) is not new, a file modified one
  unit later is.
\<close>

theorem gatherFiles_New_iff_witness:
  "fst (gatherFiles ''in'' (Some 10) (Directory 0 [(''a.txt'', File 10), (''b.txt'', File 11)])) =
     [\<lparr>Name = ''a.txt'', Location = ''in/a.txt'', ModTime = 10, New = False\<rparr>,
      \<lparr>Name = ''b.txt'', Location = ''in/b.txt'', ModTime = 11, New = True\<rparr>]
   \<and> map New (fst (gatherFiles ''in'' (Some 10)
                    (Directory 0 [(''a.txt'', File 10), (''b.txt'', File 11)]))) =
     map (\<lambda>f. 10 < ModTime f) (fst (gatherFiles ''in'' (Some 10)
                    (Directory 0 [(''a.txt'', File 10), (''b.txt'', File 11)])))"
proof -
  have ev: "fst (gatherFiles ''in'' (Some 10)
                  (Directory 0 [(''a.txt'', File 10), (''b.txt'', File 11)])) =
     [\<lparr>Name = ''a.txt'', Location = ''in/a.txt'', ModTime = 10, New = False\<rparr>,
      \<lparr>Name = ''b.txt'', Location = ''in/b.txt'', ModTime = 11, New = True\<rparr>]"
    by code_simp
  show ?thesis
    using gatherFiles_New_iff[of "''in''" "Some 10"
        "Directory 0 [(''a.txt'', File 10), (''b.txt'', File 11)]"] ev
    by simp
qed

section \<open>Paths: the last element of a joined path\<close>

lemma split_sep_nonempty: "split_sep s \<noteq> []"
  by (induction s) (auto split: list.splits)

lemma split_sep_no_sep: "Separator \<notin> set b \<Longrightarrow> split_sep b = [b]"
  by (induction b) (auto split: list.splits)

lemma split_sep_append: "split_sep (a @ Separator # b) = split_sep a @ split_sep b"
  by (induction a) (auto split: list.splits simp: split_sep_nonempty)

lemma join_sep_snoc: "join_sep (out @ [e]) = (if out = [] then e else join_sep out @ Separator # e)"
  by (induction out rule: join_sep.induct) auto

lemma clean_elem_plain: "plain e \<Longrightarrow> clean_elem rooted out e = out @ [e]"
  by (simp add: clean_elem_def plain_def)

lemma Clean_dir_plain:
  assumes "plain name"
  shows "\<exists>pre. Clean (p @ Separator # name) = pre @ name \<and> (pre = [] \<or> last pre = Separator)"
proof -
  let ?rooted = "hd (p @ Separator # name) = Separator"
  let ?out = "foldl (clean_elem ?rooted) [] (split_sep p)"
  have sp: "split_sep (p @ Separator # name) = split_sep p @ [name]"
    using assms by (simp add: split_sep_append split_sep_no_sep plain_def)
  have fo: "foldl (clean_elem ?rooted) [] (split_sep (p @ Separator # name)) = ?out @ [name]"
    by (simp add: sp clean_elem_plain[OF assms])
  have ne: "name \<noteq> []" using assms by (simp add: plain_def)
  show ?thesis
  proof (cases "?out = []")
    case True
    then have "Clean (p @ Separator # name) = (if ?rooted then [Separator] else []) @ name"
      using ne by (simp add: Clean_def Let_def fo join_sep_snoc del: foldl_append)
    then show ?thesis by (cases ?rooted) auto
  next
    case False
    then have "Clean (p @ Separator # name) =
       ((if ?rooted then [Separator] else []) @ join_sep ?out @ [Separator]) @ name"
      using ne by (simp add: Clean_def Let_def fo join_sep_snoc del: foldl_append)
    then show ?thesis by (metis last_snoc append_assoc)
  qed
qed

lemma Clean_plain:
  assumes "plain name"
  shows "Clean name = name"
proof -
  have "name \<noteq> []" and "Separator \<notin> set name"
    using assms by (simp_all add: plain_def)
  then have "hd name \<noteq> Separator"
    by (cases name) auto
  then show ?thesis
    using assms by (simp add: Clean_def Let_def plain_def split_sep_no_sep clean_elem_def)
qed

lemma Join2_plain:
  assumes "plain name"
  shows "\<exists>pre. Join [path, name] = pre @ name \<and> (pre = [] \<or> last pre = Separator)"
proof (cases "path = []")
  case True
  then have "Join [path, name] = name"
    using assms by (simp add: Join_def Clean_plain plain_def)
  then show ?thesis by simp
next
  case False
  then have "Join [path, name] = Clean (path @ Separator # name)"
    by (simp add: Join_def)
  then show ?thesis using Clean_dir_plain[OF assms] by simp
qed

lemma Base_plain_suffix:
  assumes "plain name" and "pre = [] \<or> last pre = Separator"
  shows "Base (pre @ name) = name"
proof -
  have ne: "name \<noteq> []" and ns: "Separator \<notin> set name"
    using assms(1) by (simp_all add: plain_def)
  have l: "last name \<noteq> Separator" using ne ns by (metis last_in_set)
  have st: "strip_trailing_sep (pre @ name) = pre @ name"
    using ne l by (cases "rev name") (auto simp: strip_trailing_sep_def)
  have la: "last (split_sep (pre @ name)) = name"
  proof (cases "pre = []")
    case True
    then show ?thesis using ns by (simp add: split_sep_no_sep)
  next
    case False
    then obtain q where q: "pre = q @ [Separator]"
      using assms(2) by (metis append_butlast_last_id)
    show ?thesis using ns by (simp add: q split_sep_append split_sep_no_sep)
  qed
  show ?thesis using ne st la by (simp add: Base_def Let_def)
qed

lemma Base_Join_plain: "plain name \<Longrightarrow> Base (Join [path, name]) = name"
  using Join2_plain[of name path] Base_plain_suffix by metis

lemma plain_trash: "plain ''trash''"
  by (simp add: plain_def)

lemma Base_Join_trash: "Base (Join [path, ''trash'']) = ''trash''"
  by (rule Base_Join_plain[OF plain_trash])

section \<open>What the callback of the scan does, and what the scan collects\<close>

lemma gather_fn_trash: "Base path = ''trash'' \<Longrightarrow> gather_fn lr path info err files = (Some SkipDir, files)"
  by (simp add: gather_fn_def)

lemma walk_gather_trash:
  "Base path = ''trash'' \<Longrightarrow> walk (gather_fn lr) path n files = (Some SkipDir, files)"
  by (cases n) (simp_all add: gather_fn_trash)

lemma gather_fn_nofile:
  "Base path \<noteq> ''trash'' \<Longrightarrow> gather_fn lr path None err files = (None, files)"
  "Base path \<noteq> ''trash'' \<Longrightarrow> gather_fn lr path info (Some e) files = (None, files)"
  "Base path \<noteq> ''trash'' \<Longrightarrow> gather_fn lr path (info_of path (Directory t es)) err files = (None, files)"
  by (auto simp: gather_fn_def visitFileInfos_def info_of_def Lstat_def split: option.splits)

lemma gather_fn_file:
  "Base path \<noteq> ''trash'' \<Longrightarrow> gather_fn lr path (info_of path (File t)) None files =
     (None, files @ [\<lparr>Name = Base path, Location = path, ModTime = t,
                      New = (case lr of None \<Rightarrow> True | Some l \<Rightarrow> After t l)\<rparr>])"
  by (auto simp: gather_fn_def visitFileInfos_def info_of_def Lstat_def split: option.splits)

lemma path_at_Cons: "path_at root (name # ns) = path_at (Join [root, name]) ns"
  by (simp add: path_at_def)

lemma placed_child:
  assumes "placed (Join [path, name]) n f" and "name \<noteq> ''trash''"
  shows "\<exists>(ns, t)\<in>set (files_under_list ((name, n) # es)).
        ''trash'' \<notin> set ns \<and> Location f = path_at path ns \<and> ModTime f = t \<and>
        Name f = Base (Location f)"
proof -
  obtain ns t where in_n: "(ns, t) \<in> set (files_under n)"
    and ok: "''trash'' \<notin> set ns" "Location f = path_at (Join [path, name]) ns"
      "ModTime f = t" "Name f = Base (Location f)"
    using assms(1) unfolding placed_def by blast
  have "(name # ns, t) \<in> set (files_under_list ((name, n) # es))"
    using in_n by force
  moreover have "''trash'' \<notin> set (name # ns)"
    using ok(1) assms(2) by auto
  moreover have "Location f = path_at path (name # ns)"
    using ok(2) by (simp add: path_at_Cons)
  ultimately show ?thesis
    using ok(3,4) by blast
qed

lemma walk_gather:
  shows "\<exists>e new. walk (gather_fn lr) path n files = (e, files @ new) \<and>
           (e = None \<or> e = Some SkipDir) \<and> (\<forall>f\<in>set new. placed path n f)"
    and "\<exists>e new. walk_names (gather_fn lr) path es files = (e, files @ new) \<and>
           (e = None \<or> e = Some SkipDir) \<and>
           (\<forall>f\<in>set new. \<exists>(ns, t)\<in>set (files_under_list es).
              ''trash'' \<notin> set ns \<and> Location f = path_at path ns \<and> ModTime f = t \<and>
              Name f = Base (Location f))"
proof (induction n and es arbitrary: path files and path files rule: files_under_files_under_list.induct)
  case (1 t)
  show ?case
  proof (cases "Base path = ''trash''")
    case True
    then show ?thesis by (simp add: gather_fn_trash)
  next
    case False
    then show ?thesis
      by (simp add: gather_fn_file placed_def path_at_def)
  qed
next
  case (2 t es)
  show ?case
  proof (cases "Base path = ''trash''")
    case True
    then show ?thesis by (simp add: gather_fn_trash)
  next
    case False
    then show ?thesis
      using 2[of path files] by (simp add: gather_fn_nofile placed_def)
  qed
next
  case (3 t)
  show ?case
    by (cases "Base path = ''trash''") (simp_all add: gather_fn_trash gather_fn_nofile)
next
  case 4
  show ?case
    by (cases "Base path = ''trash''") (simp_all add: gather_fn_trash gather_fn_nofile)
next
  case 5
  show ?case by simp
next
  case (6 name n es)
  let ?f = "Join [path, name]"
  obtain e new where w: "walk (gather_fn lr) ?f n files = (e, files @ new)"
      and e: "e = None \<or> e = Some SkipDir" and pl: "\<forall>f\<in>set new. placed ?f n f"
    using 6(1)[of ?f files] by blast
  obtain e2 new2 where w2: "walk_names (gather_fn lr) path es (files @ new) = (e2, (files @ new) @ new2)"
      and e2: "e2 = None \<or> e2 = Some SkipDir"
      and pl2: "\<forall>f\<in>set new2. \<exists>(ns, t)\<in>set (files_under_list es).
              ''trash'' \<notin> set ns \<and> Location f = path_at path ns \<and> ModTime f = t \<and>
              Name f = Base (Location f)"
    using 6(2)[of path "files @ new"] by blast
  have pl2': "\<forall>f\<in>set new2. \<exists>(ns, t)\<in>set (files_under_list ((name, n) # es)).
              ''trash'' \<notin> set ns \<and> Location f = path_at path ns \<and> ModTime f = t \<and>
              Name f = Base (Location f)"
    using pl2 by fastforce
  show ?case
  proof (cases "name = ''trash''")
    case True
    then have b: "Base ?f = ''trash''" by (simp add: Base_Join_trash)
    have new: "new = []" using w walk_gather_trash[OF b, of lr n files] by simp
    have "\<exists>e' new'. walk_names (gather_fn lr) path ((name, n) # es) files = (e', files @ new') \<and>
            (e' = None \<or> e' = Some SkipDir) \<and> (new' = [] \<or> new' = new2)"
      using w w2 e2 new b
      by (cases n) (auto simp: Let_def gather_fn_trash)
    then show ?thesis using pl2' by fastforce
  next
    case False
    have pl': "\<forall>f\<in>set new. \<exists>(ns, t)\<in>set (files_under_list ((name, n) # es)).
              ''trash'' \<notin> set ns \<and> Location f = path_at path ns \<and> ModTime f = t \<and>
              Name f = Base (Location f)"
      using pl placed_child[OF _ False] by blast
    have nm: "n = Missing \<Longrightarrow> gather_fn lr ?f None (Some ErrOS) files = (e, files @ new)"
      using w by simp
    have "\<exists>e' new'. walk_names (gather_fn lr) path ((name, n) # es) files = (e', files @ new') \<and> (e' = None \<or> e' = Some SkipDir) \<and> (new' = new \<or> new' = new @ new2)"
      using w w2 e e2 nm
      by (cases n) (auto simp: Let_def)
    then show ?thesis using pl' pl2' by fastforce
  qed
qed

section \<open>The scan reports no error; a file named trash\<close>

lemma Walk_gather:
  "\<exists>new. Walk root (gather_fn lr) n [] = (None, new) \<and> (\<forall>f\<in>set new. placed root n f)"
proof (cases n)
  case Missing
  then show ?thesis
    by (cases "Base root = ''trash''") (simp_all add: Walk_def gather_fn_trash gather_fn_nofile)
next
  case (File t)
  obtain e new where "walk (gather_fn lr) root n [] = (e, [] @ new)"
    "e = None \<or> e = Some SkipDir" "\<forall>f\<in>set new. placed root n f"
    using walk_gather(1)[of lr root n "[]"] by blast
  then show ?thesis using File by (auto simp: Walk_def)
next
  case (Directory t es)
  obtain e new where "walk (gather_fn lr) root n [] = (e, [] @ new)"
    "e = None \<or> e = Some SkipDir" "\<forall>f\<in>set new. placed root n f"
    using walk_gather(1)[of lr root n "[]"] by blast
  then show ?thesis using Directory by (auto simp: Walk_def)
next
  case (Unreadable t)
  obtain e new where "walk (gather_fn lr) root n [] = (e, [] @ new)"
    "e = None \<or> e = Some SkipDir" "\<forall>f\<in>set new. placed root n f"
    using walk_gather(1)[of lr root n "[]"] by blast
  then show ?thesis using Unreadable by (auto simp: Walk_def)
qed

lemma gatherFiles_no_error: "snd (gatherFiles path lastRun n) = None"
  using Walk_gather[of path lastRun n] by (auto simp: gatherFiles_def)

lemma gatherFiles_placed: "f \<in> set (fst (gatherFiles root lastRun n)) \<Longrightarrow> placed root n f"
  using Walk_gather[of root lastRun n] by (auto simp: gatherFiles_def)

text \<open>
  C1. The scan of a root that does not exist, or of a root directory that cannot be read,
  returns no record and no error, in both variants: the callback turns the error it is
  handed into nil (or into \<open>SkipDir\<close>, which the walk turns into nil), so the caller's
  fatal branch is never taken.
\<close>

theorem gatherFiles_missing_root:
  "gatherFiles root lastRun Missing = ([], None) \<and> gatherFiles0 root Missing = ([], None) \<and>
   gatherFiles root lastRun (Unreadable t) = ([], None) \<and>
   gatherFiles0 root (Unreadable t) = ([], None)"
  by (cases "Base root = ''trash''")
     (simp_all add: gatherFiles_def Walk_def gather_fn_trash gather_fn_nofile
        gatherFiles0_def gather_fn0_def visitFileInfos0_def)

text \<open>
  With no input root, the run of main.go goes on: every file of the output is an orphan
  and is moved to the trash, and the run finishes.
\<close>

lemma main_missing_input_root:
  "fst (main sim_os (world0\<lparr>sim_trees := [(''out'', Directory 0 [(''a.txt'', File 10)])]\<rparr>)) = Finished
   \<and> renames (events (snd (main sim_os
         (world0\<lparr>sim_trees := [(''out'', Directory 0 [(''a.txt'', File 10)])]\<rparr>)))) =
       [(''out/a.txt'', ''out/trash/a.20240102030405.txt'')]"
  by code_simp

lemma walk_names_append:
  "walk_names fn path (xs @ ys) s =
     (case walk_names fn path xs s of
        (Some e, s1) \<Rightarrow> (Some e, s1)
      | (None, s1) \<Rightarrow> walk_names fn path ys s1)"
proof (induction xs arbitrary: s)
  case Nil
  show ?case by simp
next
  case (Cons x xs)
  obtain name n where x: "x = (name, n)" by (cases x)
  show ?case
    unfolding x
    by (cases n) (auto simp: Let_def Cons split: prod.splits option.splits)
qed

lemma walk_names_trash_file:
  "walk_names (gather_fn lr) path ((''trash'', File u) # rest) s = (Some SkipDir, s)"
  by (simp add: Let_def Base_Join_trash gather_fn_trash)

lemma walk_dir_trash_file:
  "walk (gather_fn lr) path (Directory t (before @ (''trash'', File u) # after)) s =
     (case walk (gather_fn lr) path (Directory t before) s of
        (None, s1) \<Rightarrow> (Some SkipDir, s1)
      | (Some e, s1) \<Rightarrow> (Some e, s1))"
proof -
  have i: "info_of path (Directory t (before @ (''trash'', File u) # after)) =
           info_of path (Directory t before)"
    by (simp add: info_of_def Lstat_def)
  show ?thesis
    by (simp add: i walk_names_append Let_def Base_Join_trash gather_fn_trash
        split: prod.splits option.splits)
qed

lemma gatherFiles_trash_file:
  "gatherFiles root lastRun (Directory t (before @ (''trash'', File u) # after)) =
     gatherFiles root lastRun (Directory t before)"
proof -
  obtain e new where w: "walk (gather_fn lastRun) root (Directory t before) [] = (e, [] @ new)"
    and e: "e = None \<or> e = Some SkipDir"
    using walk_gather(1)[of lastRun root "Directory t before" "[]"] by blast
  show ?thesis
    using w e
    by (auto simp: gatherFiles_def Walk_def walk_dir_trash_file simp del: walk.simps)
qed

lemma walk_names_dir_trash_file:
  "walk_names (gather_fn lastRun) path
        ((d, Directory t (before @ (''trash'', File u) # after)) # rest) files =
     walk_names (gather_fn lastRun) path ((d, Directory t before) # rest) files"
proof -
  let ?f = "Join [path, d]"
  obtain e new where w: "walk (gather_fn lastRun) ?f (Directory t before) files = (e, files @ new)"
    and e: "e = None \<or> e = Some SkipDir"
    using walk_gather(1)[of lastRun ?f "Directory t before" files] by blast
  show ?thesis
    using w e
    by (auto simp: Let_def walk_dir_trash_file simp del: walk.simps)
qed

text \<open>
  C9. A file named \<open>trash\<close> that is not a directory yields no record, and the entries of
  its directory that come after it are not visited: the scan is that of the directory cut
  before the file. This holds at the root and for a directory \<open>d\<close> anywhere below it,
  whose later siblings \<open>rest\<close> are still visited.
\<close>

theorem trash_file_ends_its_directory:
  "gatherFiles root lastRun (Directory t (before @ (''trash'', File u) # after)) =
     gatherFiles root lastRun (Directory t before)
   \<and> walk_names (gather_fn lastRun) path
        ((d, Directory t (before @ (''trash'', File u) # after)) # rest) files =
     walk_names (gather_fn lastRun) path ((d, Directory t before) # rest) files"
  using gatherFiles_trash_file walk_names_dir_trash_file by blast

text \<open>
  An example, with the entries in the order of their names: \<open>z\<close> comes after the file
  \<open>trash\<close> and is lost, \<open>e\<close> in the parent is kept.
\<close>

lemma trash_file_example:
  "fst (gatherFiles ''in'' None
     (Directory 0 [(''d'', Directory 0 [(''a'', File 1), (''trash'', File 2), (''z'', File 3)]),
                   (''e'', File 4)])) =
    [\<lparr>Name = ''a'', Location = ''in/d/a'', ModTime = 1, New = True\<rparr>,
     \<lparr>Name = ''e'', Location = ''in/e'', ModTime = 4, New = True\<rparr>]"
  by code_simp

section \<open>The trash directory is never scanned\<close>

lemma orphans_subset: "set (orphans config m fs) \<subseteq> set fs"
  by (auto simp: orphans_def)

lemma to_copy_subset: "set (to_copy fs) \<subseteq> set fs"
  by (auto simp: to_copy_def)

lemma walk_names_trash_dir:
  "walk_names (gather_fn lr) path ((''trash'', Directory t es) # rest) files =
   walk_names (gather_fn lr) path rest files"
  by (simp add: Let_def Base_Join_trash gather_fn_trash)

text \<open>
  C7, as the specification states it, fails in its last part. In the fourth example world
  the input root lies inside the trash of the output tree: the file \<open>f.txt\<close> below it is
  a file of the output tree's trash, it is in the copy set, and the run copies it into the
  output tree.
\<close>

theorem trash_file_copied_counterexample:
  "to_copy (filesInInputPath_of sim_os config3 world3) =
     [\<lparr>Name = ''f.txt'', Location = ''out/trash/sub/f.txt'', ModTime = 1, New = True\<rparr>]
   \<and> path_at (Join [OutputPath config3, ''trash'']) [''sub'', ''f.txt''] = ''out/trash/sub/f.txt''
   \<and> files_under (os_Tree sim_os (OutputPath config3) world3) = [([''trash'', ''sub'', ''f.txt''], 1)]
   \<and> fst (main sim_os world3) = Finished
   \<and> copies (events (snd (main sim_os world3))) = [(''out/trash/sub/f.txt'', ''out/f.txt'')]"
  by code_simp

text \<open>
  C7, amended. A directory named \<open>trash\<close> met by the walk adds no record and the walk
  goes on with the next entry. Every record of a scan is the record of a file of the tree
  that is reached from the scanned root through names none of which is \<open>trash\<close>: every
  orphan is so reached from the output root, and every record that is copied is so reached
  from the input root.
\<close>

theorem trash_is_never_scanned:
  "walk_names (gather_fn lastRun) path ((''trash'', Directory t es) # rest) files =
     walk_names (gather_fn lastRun) path rest files
   \<and> (\<forall>f\<in>set (fst (gatherFiles root lastRun n)). placed root n f)
   \<and> (\<forall>f\<in>set (orphans config inFilesMap (fst (gatherFiles (OutputPath config) None n))).
        placed (OutputPath config) n f)
   \<and> (\<forall>f\<in>set (to_copy (fst (gatherFiles (InputPath config) lastRun n))).
        placed (InputPath config) n f)"
  using orphans_subset[of config inFilesMap "fst (gatherFiles (OutputPath config) None n)"]
    to_copy_subset[of "fst (gatherFiles (InputPath config) lastRun n)"]
  by (auto simp: walk_names_trash_dir gatherFiles_placed simp del: walk_names.simps)

text \<open>
  An output tree with a trash directory at the root and one below \<open>p\<close>: only \<open>a.txt\<close>
  and \<open>p/x.txt\<close> are scanned, and both are orphans when the input is empty.
\<close>

theorem trash_is_never_scanned_witness:
  "map Location (orphans \<lparr>InputPath = ''in'', OutputPath = ''out''\<rparr> Map.empty
     (fst (gatherFiles ''out'' None
        (Directory 0 [(''a.txt'', File 1),
                      (''p'', Directory 0 [(''trash'', Directory 0 [(''y'', File 2)]),
                                           (''x.txt'', File 3)]),
                      (''trash'', Directory 0 [(''old'', File 4)])])))) =
     [''out/a.txt'', ''out/p/x.txt'']
   \<and> placed ''out''
        (Directory 0 [(''a.txt'', File 1),
                      (''p'', Directory 0 [(''trash'', Directory 0 [(''y'', File 2)]),
                                           (''x.txt'', File 3)]),
                      (''trash'', Directory 0 [(''old'', File 4)])])
        \<lparr>Name = ''x.txt'', Location = ''out/p/x.txt'', ModTime = 3, New = True\<rparr>"
proof -
  let ?T = "Directory 0 [(''a.txt'', File 1),
                      (''p'', Directory 0 [(''trash'', Directory 0 [(''y'', File 2)]),
                                           (''x.txt'', File 3)]),
                      (''trash'', Directory 0 [(''old'', File 4)])]"
  let ?c = "\<lparr>InputPath = ''in'', OutputPath = ''out''\<rparr>"
  have ev: "orphans ?c Map.empty (fst (gatherFiles ''out'' None ?T)) =
     [\<lparr>Name = ''a.txt'', Location = ''out/a.txt'', ModTime = 1, New = True\<rparr>,
      \<lparr>Name = ''x.txt'', Location = ''out/p/x.txt'', ModTime = 3, New = True\<rparr>]"
    by code_simp
  have "\<forall>f\<in>set (orphans ?c Map.empty (fst (gatherFiles (OutputPath ?c) None ?T))).
        placed (OutputPath ?c) ?T f"
    using trash_is_never_scanned[where n = ?T and config = ?c and inFilesMap = Map.empty]
    by blast
  then show ?thesis
    by (simp add: ev)
qed

section \<open>What each step of a run records\<close>

lemma renames_append: "renames (xs @ ys) = renames xs @ renames ys"
  by (induction xs rule: renames.induct) auto

lemma copies_append: "copies (xs @ ys) = copies xs @ copies ys"
  by (induction xs rule: copies.induct) auto

lemma writes_append: "writes (xs @ ys) = writes xs @ writes ys"
  by (induction xs rule: writes.induct) auto

lemmas proj_append = renames_append copies_append writes_append

lemma did_simps: "events (did e w st) = events st @ [e]" "world (did e w st) = w"
  by (simp_all add: did_def)

lemma createIfNotExist_events:
  assumes "createIfNotExist os dir st = (r, st1)"
  shows "renames (events st1) = renames (events st)"
    and "copies (events st1) = copies (events st)"
    and "writes (events st1) = writes (events st)"
    and "r = None \<or> r = Some Exit1"
  using assms
  by (auto simp: createIfNotExist_def did_simps proj_append split: if_splits prod.splits)

lemma createIfNotExist_exit:
  "fst (createIfNotExist os dir st) = Some Exit1 \<longleftrightarrow>
     os_StatNotExist os dir (world st) \<and> fst (os_MkdirAll os dir (world st)) \<noteq> None"
  by (auto simp: createIfNotExist_def split: prod.splits)

lemma moveToTrash_events:
  assumes "moveToTrash os src dest st = (err, st1)"
  shows "events st1 = events st @ [EvRename src dest]"
  using assms by (auto simp: moveToTrash_def did_simps split: prod.splits)

lemma copyFile_events:
  assumes "copyFile os src dest st = (err, st1)"
  shows "events st1 = events st @ [EvCopyFile src dest]"
  using assms
  by (auto simp: copyFile_def Let_def did_simps split: prod.splits option.splits)

lemma logger_events: "events (logger_Println msg name st) = events st @ [EvLog msg name]"
  by (simp add: logger_Println_def did_simps)

lemma trash_body_skip:
  "\<not> orphan config m output \<Longrightarrow> trash_body os config m tp ps output st = (None, st)"
  by (auto simp: trash_body_def orphan_def Let_def)

lemma trash_body_orphan:
  "orphan config m output \<Longrightarrow>
   trash_body os config m tp ps output st =
     (case createIfNotExist os (Dir (newPath tp ps output)) st of
        (Some out, st1) \<Rightarrow> (Some out, st1)
      | (None, st1) \<Rightarrow>
          (case moveToTrash os (Location output) (newPath tp ps output) st1 of
             (err, st2) \<Rightarrow>
               (None, if err \<noteq> None
                      then logger_Println ''Failed moving file to trash: '' (Name output) st2
                      else st2)))"
  by (simp add: trash_body_def orphan_def Let_def)

lemma trash_body_events:
  assumes "trash_body os config m tp ps output st = (r, st')"
  shows "r = None \<Longrightarrow> renames (events st') =
           renames (events st) @ map (\<lambda>x. (Location x, newPath tp ps x)) (orphans config m [output])"
    and "r \<noteq> None \<Longrightarrow> r = Some Exit1 \<and> renames (events st') = renames (events st)"
    and "copies (events st') = copies (events st)"
    and "writes (events st') = writes (events st)"
proof -
  show "r = None \<Longrightarrow> renames (events st') =
           renames (events st) @ map (\<lambda>x. (Location x, newPath tp ps x)) (orphans config m [output])"
  proof (cases "orphan config m output")
    case False
    then show "r = None \<Longrightarrow> ?thesis" using assms by (simp add: trash_body_skip orphans_def)
  next
    case True
    assume "r = None"
    then show ?thesis
      using assms True
      by (auto simp: trash_body_orphan orphans_def logger_events proj_append
          split: prod.splits option.splits if_splits
          dest!: createIfNotExist_events(1) moveToTrash_events)
  qed
  show "r \<noteq> None \<Longrightarrow> r = Some Exit1 \<and> renames (events st') = renames (events st)"
  proof (cases "orphan config m output")
    case False
    then show "r \<noteq> None \<Longrightarrow> ?thesis" using assms by (simp add: trash_body_skip)
  next
    case True
    assume "r \<noteq> None"
    then show ?thesis
      using assms True
      by (auto simp: trash_body_orphan 
          split: prod.splits option.splits if_splits
          dest: createIfNotExist_events(1,4))
  qed
  show "copies (events st') = copies (events st)"
  proof (cases "orphan config m output")
    case False
    then show ?thesis using assms by (simp add: trash_body_skip)
  next
    case True
    then show ?thesis
      using assms 
      by (auto simp: trash_body_orphan logger_events proj_append
          split: prod.splits option.splits if_splits
          dest!: createIfNotExist_events(2) moveToTrash_events)
  qed
  show "writes (events st') = writes (events st)"
  proof (cases "orphan config m output")
    case False
    then show ?thesis using assms by (simp add: trash_body_skip)
  next
    case True
    then show ?thesis
      using assms 
      by (auto simp: trash_body_orphan logger_events proj_append
          split: prod.splits option.splits if_splits
          dest!: createIfNotExist_events(3) moveToTrash_events)
  qed
qed

lemma orphans_Cons:
  "orphans config m (x # xs) = orphans config m [x] @ orphans config m xs"
  by (simp add: orphans_def)

lemma trash_loop_events:
  assumes "trash_loop os config m tp ps outs st = (r, st')"
  shows "(r = None \<longrightarrow> renames (events st') =
           renames (events st) @ map (\<lambda>x. (Location x, newPath tp ps x)) (orphans config m outs))
       \<and> (r \<noteq> None \<longrightarrow> r = Some Exit1)
       \<and> copies (events st') = copies (events st)
       \<and> writes (events st') = writes (events st)"
  using assms
proof (induction outs arbitrary: st)
  case Nil
  then show ?case by (simp add: orphans_def)
next
  case (Cons x rest)
  obtain r1 st1 where b: "trash_body os config m tp ps x st = (r1, st1)"
    by (cases "trash_body os config m tp ps x st") auto
  note ev = trash_body_events[OF b]
  show ?case
  proof (cases r1)
    case None
    then have l: "trash_loop os config m tp ps rest st1 = (r, st')"
      using Cons.prems b by simp
    show ?thesis
      using Cons.IH[OF l] ev(1)[OF None] ev(3,4)
      by (simp add: orphans_Cons[of config m x rest])
  next
    case (Some out)
    then have "r = Some out" "st' = st1" using Cons.prems b by simp_all
    then show ?thesis using ev(2-4) Some by simp
  qed
qed

section \<open>The copy loop, the write of the run state, and the run as a whole\<close>

lemma copy_body_skip: "\<not> New input \<Longrightarrow> copy_body os config input st = (None, st)"
  by (simp add: copy_body_def)

lemma copy_body_new:
  "New input \<Longrightarrow>
   copy_body os config input st =
     (case createIfNotExist os (Dir (destination_of config input)) st of
        (Some out, st1) \<Rightarrow> (Some out, st1)
      | (None, st1) \<Rightarrow>
          (case copyFile os (source_of config input) (destination_of config input) st1 of
             (err, st2) \<Rightarrow>
               (None, if err \<noteq> None
                      then logger_Println ''Failed copying file: '' (Name input) st2
                      else st2)))"
  unfolding copy_body_def source_of_def destination_of_def Let_def by simp

lemma copy_body_stops_only_at_mkdir:
  "fst (copy_body os config input st) =
     (if New input then fst (createIfNotExist os (Dir (destination_of config input)) st) else None)"
  by (auto simp: copy_body_skip copy_body_new split: prod.splits option.splits)

lemma copy_body_events:
  assumes "copy_body os config input st = (r, st')"
  shows "r = None \<Longrightarrow> copies (events st') =
           copies (events st) @ map (\<lambda>f. (source_of config f, destination_of config f)) (to_copy [input])"
    and "r \<noteq> None \<Longrightarrow> r = Some Exit1 \<and> copies (events st') = copies (events st)"
    and "renames (events st') = renames (events st)"
    and "writes (events st') = writes (events st)"
proof -
  show "r = None \<Longrightarrow> copies (events st') =
           copies (events st) @ map (\<lambda>f. (source_of config f, destination_of config f)) (to_copy [input])"
  proof (cases "New input")
    case False
    then show "r = None \<Longrightarrow> ?thesis" using assms by (simp add: copy_body_skip to_copy_def)
  next
    case True
    assume "r = None"
    then show ?thesis
      using assms True
      by (auto simp: copy_body_new to_copy_def logger_events proj_append
          split: prod.splits option.splits if_splits
          dest!: createIfNotExist_events(2) copyFile_events)
  qed
  show "r \<noteq> None \<Longrightarrow> r = Some Exit1 \<and> copies (events st') = copies (events st)"
  proof (cases "New input")
    case False
    then show "r \<noteq> None \<Longrightarrow> ?thesis" using assms by (simp add: copy_body_skip)
  next
    case True
    assume "r \<noteq> None"
    then show ?thesis
      using assms True
      by (auto simp: copy_body_new
          split: prod.splits option.splits if_splits
          dest: createIfNotExist_events(2,4))
  qed
  show "renames (events st') = renames (events st)"
  proof (cases "New input")
    case False
    then show ?thesis using assms by (simp add: copy_body_skip)
  next
    case True
    then show ?thesis
      using assms
      by (auto simp: copy_body_new logger_events proj_append
          split: prod.splits option.splits if_splits
          dest!: createIfNotExist_events(1) copyFile_events)
  qed
  show "writes (events st') = writes (events st)"
  proof (cases "New input")
    case False
    then show ?thesis using assms by (simp add: copy_body_skip)
  next
    case True
    then show ?thesis
      using assms
      by (auto simp: copy_body_new logger_events proj_append
          split: prod.splits option.splits if_splits
          dest!: createIfNotExist_events(3) copyFile_events)
  qed
qed

lemma to_copy_Cons: "to_copy (x # xs) = to_copy [x] @ to_copy xs"
  by (simp add: to_copy_def)

lemma copy_loop_events:
  assumes "copy_loop os config ins st = (r, st')"
  shows "(r = None \<longrightarrow> copies (events st') =
           copies (events st) @ map (\<lambda>f. (source_of config f, destination_of config f)) (to_copy ins))
       \<and> (r \<noteq> None \<longrightarrow> r = Some Exit1)
       \<and> renames (events st') = renames (events st)
       \<and> writes (events st') = writes (events st)"
  using assms
proof (induction ins arbitrary: st)
  case Nil
  then show ?case by (simp add: to_copy_def)
next
  case (Cons input rest)
  obtain r1 st1 where b: "copy_body os config input st = (r1, st1)"
    by (cases "copy_body os config input st") auto
  note ev = copy_body_events[OF b]
  show ?case
  proof (cases r1)
    case None
    then have l: "copy_loop os config rest st1 = (r, st')"
      using Cons.prems b by simp
    show ?thesis
      using Cons.IH[OF l] ev(1)[OF None] ev(3,4)
      by (simp add: to_copy_Cons[of input rest])
  next
    case (Some out)
    then have "r = Some out" "st' = st1" using Cons.prems b by simp_all
    then show ?thesis using ev(2-4) Some by simp
  qed
qed

lemma copy_loop_stops_at_failed_mkdir:
  assumes "New input"
    and "os_StatNotExist os (Dir (destination_of config input)) (world st)"
    and "os_MkdirAll os (Dir (destination_of config input)) (world st) = (Some e, w)"
  shows "copy_loop os config (input # rest) st =
           (Some Exit1, did (EvMkdirAll (Dir (destination_of config input))) w st)"
  using assms by (simp add: copy_body_new createIfNotExist_def)

lemma persist_events:
  assumes "persist os ps st = (out, st')"
  shows "events st' = events st @ [EvWriteTime ps]"
    and "out = Finished \<or> out = Fatal ''Failed updating time.txt: ''"
    and "out = Finished \<longleftrightarrow> fst (os_WriteTime os ps (world st)) = None"
  using assms by (auto simp: persist_def did_simps split: prod.splits if_splits)

lemma gatherFiles_fst: "gatherFiles path lr n = (fst (gatherFiles path lr n), None)"
  using gatherFiles_no_error[of path lr n] by (cases "gatherFiles path lr n") simp

lemma sync_unfold:
  "sync os config tp ps st =
     (case os_OpenLog os (world st) of
        (Some err, w) \<Rightarrow> (Fatal ''Failed opening file_error.log: '', st\<lparr>world := w\<rparr>)
      | (None, w) \<Rightarrow>
          (case trash_loop os config (inFilesMap_of os config (world st)) tp ps
                  (filesInOutputPath_of os config (world st)) (st\<lparr>world := w\<rparr>) of
             (Some out, st1) \<Rightarrow> (out, st1)
           | (None, st1) \<Rightarrow>
               (case copy_loop os config (filesInInputPath_of os config (world st)) st1 of
                  (Some out, st2) \<Rightarrow> (out, st2)
                | (None, st2) \<Rightarrow> persist os ps st2)))"
proof -
  have a: "gatherFiles (InputPath config) (lastRun_of (os_ReadTime os (world st)))
             (os_Tree os (InputPath config) (world st)) =
           (filesInInputPath_of os config (world st), None)"
    unfolding filesInInputPath_of_def by (rule gatherFiles_fst)
  have b: "gatherFiles (OutputPath config) None (os_Tree os (OutputPath config) (world st)) =
           (filesInOutputPath_of os config (world st), None)"
    unfolding filesInOutputPath_of_def by (rule gatherFiles_fst)
  show ?thesis
    unfolding inFilesMap_of_def sync_def Let_def a b by simp
qed

section \<open>What a move and a copy do in the small file system\<close>

lemma map_of_filter_fst: "map_of (filter (\<lambda>e. fst e \<noteq> k) fs) = (map_of fs)(k := None)"
  by (rule ext) (induct fs, auto)

lemma map_of_put_file: "map_of (put_file p c fs) = (map_of fs)(p \<mapsto> c)"
  by (rule ext) (simp add: put_file_def map_of_filter_fst)

lemma sim_createIfNotExist:
  assumes "dir_ready (world st) dir"
  shows "\<exists>st1. createIfNotExist sim_os dir st = (None, st1) \<and>
           dir \<in> set (sim_dirs (world st1)) \<and> sim_files (world st1) = sim_files (world st)"
proof (cases "dir \<in> set (sim_dirs (world st))")
  case True
  then show ?thesis by (simp add: createIfNotExist_def sim_os_def)
next
  case False
  then have "os_StatNotExist sim_os dir (world st)" and "dir \<notin> set (sim_nomkdir (world st))"
    using assms by (auto simp: dir_ready_def)
  then show ?thesis
    by (auto simp: createIfNotExist_def sim_os_def did_simps)
qed

lemma sim_copyFile:
  assumes "map_of (sim_files (world st)) src = Some c" and "Dir dest \<in> set (sim_dirs (world st))"
    and "src \<noteq> dest"
  shows "\<exists>st'. copyFile sim_os src dest st = (None, st') \<and>
           map_of (sim_files (world st')) dest = Some c \<and>
           map_of (sim_files (world st')) src = Some c"
  using assms
  by (simp add: copyFile_def Let_def did_simps sim_os_def sim_Create_def sim_Copy_def
      map_of_put_file)


lemma sim_copy_body:
  assumes n: "New input"
    and c: "map_of (sim_files (world st)) (source_of config input) = Some c"
    and d: "source_of config input \<noteq> destination_of config input"
    and r: "dir_ready (world st) (Dir (destination_of config input))"
  shows "\<exists>st'. copy_body sim_os config input st = (None, st') \<and>
           map_of (sim_files (world st')) (destination_of config input) = Some c"
proof -
  obtain st1 where c1: "createIfNotExist sim_os (Dir (destination_of config input)) st = (None, st1)"
    and d1: "Dir (destination_of config input) \<in> set (sim_dirs (world st1))"
    and f1: "sim_files (world st1) = sim_files (world st)"
    using sim_createIfNotExist[OF r] by blast
  obtain st2 where c2: "copyFile sim_os (source_of config input) (destination_of config input) st1 =
                          (None, st2)"
    and f2: "map_of (sim_files (world st2)) (destination_of config input) = Some c"
    using sim_copyFile[of st1 "source_of config input" c "destination_of config input"] c d d1 f1
    by auto
  show ?thesis
    using n c1 c2 f2 by (simp add: copy_body_new)
qed


section \<open>Names: extension, stem and timestamp\<close>

lemma ext_scan_suffix:
  "ext_scan cs acc = [] \<or> (\<exists>k. ext_scan cs acc = rev (take k cs) @ acc)"
proof (induction cs arbitrary: acc)
  case Nil
  show ?case by simp
next
  case (Cons c cs)
  show ?case
  proof (cases "c = Separator \<or> c = CHR ''.''")
    case True
    then show ?thesis
      by (auto intro: exI[of _ "Suc 0"])
  next
    case False
    then have e: "ext_scan (c # cs) acc = ext_scan cs (c # acc)" by simp
    from Cons[of "c # acc"] show ?thesis
    proof
      assume "ext_scan cs (c # acc) = []"
      then show ?thesis using e by simp
    next
      assume "\<exists>k. ext_scan cs (c # acc) = rev (take k cs) @ c # acc"
      then obtain k where "ext_scan cs (c # acc) = rev (take k cs) @ c # acc" by blast
      then have "ext_scan (c # cs) acc = rev (take (Suc k) (c # cs)) @ acc"
        using e by simp
      then show ?thesis by blast
    qed
  qed
qed

lemma Ext_is_suffix: "\<exists>stem. name = stem @ Ext name"
proof -
  from ext_scan_suffix[of "rev name" "[]"] show ?thesis
  proof
    assume "ext_scan (rev name) [] = []"
    then show ?thesis by (simp add: Ext_def)
  next
    assume "\<exists>k. ext_scan (rev name) [] = rev (take k (rev name)) @ []"
    then obtain k where "Ext name = rev (take k (rev name))"
      by (auto simp: Ext_def)
    then have "Ext name = drop (length name - k) name"
      by (simp add: take_rev)
    then have "name = take (length name - k) name @ Ext name"
      by simp
    then show ?thesis by blast
  qed
qed

lemma TrimSuffix_Ext: "TrimSuffix name (Ext name) @ Ext name = name"
proof -
  obtain stem where s: "name = stem @ Ext name"
    using Ext_is_suffix by blast
  have l: "length name = length stem + length (Ext name)"
    by (subst s) simp
  have l2: "length name - length (Ext name) = length stem"
    using l by simp
  have d: "drop (length stem) name = Ext name"
    by (subst s) simp
  have t: "take (length stem) name = stem"
    by (subst s) simp
  have h: "HasSuffix name (Ext name)"
    using l d by (simp add: HasSuffix_def l2)
  have "TrimSuffix name (Ext name) = stem"
    using h t by (simp add: TrimSuffix_def l2)
  then show ?thesis using s by simp
qed

lemma newName_shape:
  "newName ps output =
     TrimSuffix (Name output) (Ext (Name output)) @ ''.'' @ Format_stamp ps @ Ext (Name output)"
  by (simp add: newName_def Let_def)

lemma utoa_small: "n < 10 \<Longrightarrow> utoa n = [digit n]"
  by (simp add: utoa.simps)

lemma utoa_length2: "n < 100 \<Longrightarrow> length (utoa n) \<le> 2"
  by (subst utoa.simps) (simp add: utoa_small)

lemma utoa_length3: "n < 1000 \<Longrightarrow> length (utoa n) \<le> 3"
  using utoa_length2[of "n div 10"] by (subst utoa.simps) simp

lemma utoa_length4: "n < 10000 \<Longrightarrow> length (utoa n) \<le> 4"
  using utoa_length3[of "n div 10"] by (subst utoa.simps) simp

lemma appendInt_length2: "0 \<le> x \<Longrightarrow> x < 100 \<Longrightarrow> length (appendInt x 2) = 2"
  using utoa_length2[of "nat x"] by (simp add: appendInt_def Let_def)

lemma appendInt_length4: "0 \<le> x \<Longrightarrow> x < 10000 \<Longrightarrow> length (appendInt x 4) = 4"
  using utoa_length4[of "nat x"] by (simp add: appendInt_def Let_def)

lemma Format_stamp_length:
  assumes "0 \<le> Year t" "Year t \<le> 9999" "Month t < 100" "Day t < 100" "Hour t < 100"
    "Minute t < 100" "Second t < 100"
  shows "length (Format_stamp t) = 14"
  using assms
  by (simp add: Format_stamp_def appendInt_length2 appendInt_length4)

section \<open>Where an orphan goes\<close>

lemma digit_numeric: "d < 10 \<Longrightarrow> digit d \<in> set ''0123456789''"
proof -
  assume "d < 10"
  then have "d = 0 \<or> d = 1 \<or> d = 2 \<or> d = 3 \<or> d = 4 \<or> d = 5 \<or> d = 6 \<or> d = 7 \<or> d = 8 \<or> d = 9"
    by arith
  then show ?thesis
    by (elim disjE; hypsubst; code_simp)
qed

lemma utoa_numeric: "set (utoa n) \<subseteq> set ''0123456789''"
proof (induction n rule: utoa.induct)
  case (1 n)
  show ?case
  proof (cases "n < 10")
    case True
    then show ?thesis using digit_numeric[of n] by (subst utoa.simps) simp
  next
    case False
    have "digit (n mod 10) \<in> set ''0123456789''"
      by (rule digit_numeric) simp
    then show ?thesis using 1[OF False] False by (subst utoa.simps) simp
  qed
qed

lemma appendInt_numeric: "0 \<le> x \<Longrightarrow> set (appendInt x w) \<subseteq> set ''0123456789''"
  using utoa_numeric[of "nat \<bar>x\<bar>"] by (auto simp: appendInt_def Let_def)

lemma Format_stamp_numeric: "0 \<le> Year t \<Longrightarrow> set (Format_stamp t) \<subseteq> set ''0123456789''"
  unfolding Format_stamp_def set_append
  by (intro Un_least appendInt_numeric) simp_all

text \<open>
  C2, as the specification states it, fails. In the example world the orphan \<open>out/p/x.txt\<close>
  is renamed to a path directly under the trash root; the path of the specification keeps
  the directory \<open>p\<close>.
\<close>

theorem trash_path_counterexample:
  "fst (gatherFiles ''out'' None
          (Directory 0 [(''p'', Directory 0 [(''x.txt'', File 1)])])) =
     [\<lparr>Name = ''x.txt'', Location = ''out/p/x.txt'', ModTime = 1, New = True\<rparr>]
   \<and> newPath ''out/trash'' start0
        \<lparr>Name = ''x.txt'', Location = ''out/p/x.txt'', ModTime = 1, New = True\<rparr> =
      ''out/trash/x.20240102030405.txt''
   \<and> spec_newPath ''out/trash'' config0 start0
        \<lparr>Name = ''x.txt'', Location = ''out/p/x.txt'', ModTime = 1, New = True\<rparr> =
      ''out/trash/p/x.20240102030405.txt''
   \<and> newPath ''out/trash'' start0
        \<lparr>Name = ''x.txt'', Location = ''out/p/x.txt'', ModTime = 1, New = True\<rparr> \<noteq>
      spec_newPath ''out/trash'' config0 start0
        \<lparr>Name = ''x.txt'', Location = ''out/p/x.txt'', ModTime = 1, New = True\<rparr>"
  by code_simp

text \<open>
  C2, amended. When the loop over the output scan ends without an exit, the renames it
  started are, in order, those of the orphans, each from its location to the trash root
  joined with its new name alone. The new name is the name with its extension stripped,
  a dot, the formatted start time and the extension again; stem and extension make up the
  name. For a start time in the years 0 to 9999 the formatted time is 14 decimal digits.
\<close>

theorem trash_destination:
  assumes "trash_loop os config m trashPath processStart outs st = (None, st')"
  shows "renames (events st') =
           renames (events st) @
           map (\<lambda>output. (Location output, Join [trashPath, newName processStart output]))
             (orphans config m outs)
       \<and> (\<forall>output\<in>set outs.
            newName processStart output =
              TrimSuffix (Name output) (Ext (Name output)) @ ''.'' @ Format_stamp processStart @
              Ext (Name output)
            \<and> TrimSuffix (Name output) (Ext (Name output)) @ Ext (Name output) = Name output)
       \<and> (0 \<le> Year processStart \<and> Year processStart \<le> 9999 \<and> Month processStart \<le> 12 \<and>
          Day processStart \<le> 31 \<and> Hour processStart \<le> 23 \<and> Minute processStart \<le> 59 \<and>
          Second processStart \<le> 59 \<longrightarrow>
            length (Format_stamp processStart) = 14 \<and>
            set (Format_stamp processStart) \<subseteq> set ''0123456789'')"
proof (intro conjI)
  show "renames (events st') =
           renames (events st) @
           map (\<lambda>output. (Location output, Join [trashPath, newName processStart output]))
             (orphans config m outs)"
    using trash_loop_events[OF assms] by (simp add: newPath_def)
  show "\<forall>output\<in>set outs.
            newName processStart output =
              TrimSuffix (Name output) (Ext (Name output)) @ ''.'' @ Format_stamp processStart @
              Ext (Name output)
            \<and> TrimSuffix (Name output) (Ext (Name output)) @ Ext (Name output) = Name output"
    by (simp add: newName_shape TrimSuffix_Ext)
  show "0 \<le> Year processStart \<and> Year processStart \<le> 9999 \<and> Month processStart \<le> 12 \<and>
          Day processStart \<le> 31 \<and> Hour processStart \<le> 23 \<and> Minute processStart \<le> 59 \<and>
          Second processStart \<le> 59 \<longrightarrow>
            length (Format_stamp processStart) = 14 \<and>
            set (Format_stamp processStart) \<subseteq> set ''0123456789''"
    using Format_stamp_length[of processStart] Format_stamp_numeric[of processStart]
    by simp
qed

text \<open>
  The loop of the example world, from the state in which \<open>main\<close> enters it: two orphans,
  both renamed into the trash root.
\<close>

theorem trash_destination_witness:
  "fst (trash_loop sim_os config0 (inFilesMap_of sim_os config0 world0) ''out/trash'' start0
          (filesInOutputPath_of sim_os config0 world0) \<lparr>world = world0, events = []\<rparr>) = None
   \<and> renames (events (snd (trash_loop sim_os config0 (inFilesMap_of sim_os config0 world0)
          ''out/trash'' start0 (filesInOutputPath_of sim_os config0 world0)
          \<lparr>world = world0, events = []\<rparr>))) =
       [(''out/p/x.txt'', ''out/trash/x.20240102030405.txt''),
        (''out/q/x.txt'', ''out/trash/x.20240102030405.txt'')]
   \<and> length (Format_stamp start0) = 14"
proof -
  let ?m = "inFilesMap_of sim_os config0 world0"
  let ?outs = "filesInOutputPath_of sim_os config0 world0"
  let ?st = "\<lparr>world = world0, events = []\<rparr>"
  let ?r = "trash_loop sim_os config0 ?m ''out/trash'' start0 ?outs ?st"
  have n: "fst ?r = None" by code_simp
  then have run: "?r = (None, snd ?r)" by (metis prod.collapse)
  have o: "map (\<lambda>output. (Location output, Join [''out/trash'', newName start0 output]))
             (orphans config0 ?m ?outs) =
       [(''out/p/x.txt'', ''out/trash/x.20240102030405.txt''),
        (''out/q/x.txt'', ''out/trash/x.20240102030405.txt'')]"
    by code_simp
  have y: "0 \<le> Year start0 \<and> Year start0 \<le> 9999 \<and> Month start0 \<le> 12 \<and>
          Day start0 \<le> 31 \<and> Hour start0 \<le> 23 \<and> Minute start0 \<le> 59 \<and> Second start0 \<le> 59"
    by (simp add: start0_def)
  show ?thesis
    using trash_destination[OF run] n o y by simp
qed

lemma sim_Rename_twice:
  assumes "map_of (sim_files w) s1 = Some c1" and "map_of (sim_files w) s2 = Some c2"
    and "s1 \<noteq> s2" and "d \<noteq> s1" and "d \<noteq> s2"
  shows "\<exists>w1 w2. sim_Rename s1 d w = (None, w1) \<and> sim_Rename s2 d w1 = (None, w2) \<and>
           map_of (sim_files w1) d = Some c1 \<and>
           map_of (sim_files w2) d = Some c2 \<and> map_of (sim_files w2) s1 = None \<and>
           map_of (sim_files w2) s2 = None"
proof -
  have f: "\<And>P k (fs :: (string \<times> string) list). map_of (filter (\<lambda>e. fst e \<noteq> k) fs) =
             (map_of fs)(k := None)"
    by (rule ext) (induct_tac fs, auto)
  show ?thesis
    using assms by (simp add: sim_Rename_def put_file_def f del: filter_filter)
qed

text \<open>
  C10. The destination of an orphan is the same for two records of the same name, whatever
  their locations; the loop then starts two renames to one destination; and in the small
  file system the second rename replaces the file that the first one put there.
\<close>

theorem same_name_same_trash_path:
  "(Name a = Name b \<longrightarrow> newPath trashPath processStart a = newPath trashPath processStart b)
   \<and> (Name a = Name b \<and> orphan config m a \<and> orphan config m b \<and>
      trash_loop os config m trashPath processStart [a, b] st = (None, st') \<longrightarrow>
        renames (events st') =
          renames (events st) @
          [(Location a, newPath trashPath processStart a),
           (Location b, newPath trashPath processStart a)])
   \<and> (map_of (sim_files w) s1 = Some c1 \<and> map_of (sim_files w) s2 = Some c2 \<and>
      s1 \<noteq> s2 \<and> d \<noteq> s1 \<and> d \<noteq> s2 \<longrightarrow>
        (\<exists>w1 w2. sim_Rename s1 d w = (None, w1) \<and> sim_Rename s2 d w1 = (None, w2) \<and>
           map_of (sim_files w1) d = Some c1 \<and>
           map_of (sim_files w2) d = Some c2 \<and> map_of (sim_files w2) s1 = None \<and>
           map_of (sim_files w2) s2 = None))"
proof (intro conjI impI)
  assume "Name a = Name b"
  then show "newPath trashPath processStart a = newPath trashPath processStart b"
    by (simp add: newPath_def newName_def)
next
  assume h: "Name a = Name b \<and> orphan config m a \<and> orphan config m b \<and>
      trash_loop os config m trashPath processStart [a, b] st = (None, st')"
  then have "newPath trashPath processStart b = newPath trashPath processStart a"
    by (simp add: newPath_def newName_def)
  then show "renames (events st') =
          renames (events st) @
          [(Location a, newPath trashPath processStart a),
           (Location b, newPath trashPath processStart a)]"
    using trash_loop_events[of os config m trashPath processStart "[a, b]" st None st'] h
    by (simp add: orphans_def)
next
  assume "map_of (sim_files w) s1 = Some c1 \<and> map_of (sim_files w) s2 = Some c2 \<and>
      s1 \<noteq> s2 \<and> d \<noteq> s1 \<and> d \<noteq> s2"
  then show "\<exists>w1 w2. sim_Rename s1 d w = (None, w1) \<and> sim_Rename s2 d w1 = (None, w2) \<and>
           map_of (sim_files w1) d = Some c1 \<and>
           map_of (sim_files w2) d = Some c2 \<and> map_of (sim_files w2) s1 = None \<and>
           map_of (sim_files w2) s2 = None"
    using sim_Rename_twice by blast
qed

text \<open>
  The run of the example world: \<open>out/p/x.txt\<close> (content \<open>P\<close>) and \<open>out/q/x.txt\<close>
  (content \<open>Q\<close>) go to the same path; after the run that path holds \<open>Q\<close> and no file
  holds \<open>P\<close>.
\<close>

theorem same_name_same_trash_path_witness:
  "fst (main sim_os world0) = Finished
   \<and> renames (events (snd (main sim_os world0))) =
       [(''out/p/x.txt'', ''out/trash/x.20240102030405.txt''),
        (''out/q/x.txt'', ''out/trash/x.20240102030405.txt'')]
   \<and> map_of (sim_files (world (snd (main sim_os world0)))) ''out/trash/x.20240102030405.txt'' =
       Some ''Q''
   \<and> ''P'' \<notin> snd ` set (sim_files (world (snd (main sim_os world0))))
   \<and> newPath ''out/trash'' start0
        \<lparr>Name = ''x.txt'', Location = ''out/p/x.txt'', ModTime = 1, New = True\<rparr> =
     newPath ''out/trash'' start0
        \<lparr>Name = ''x.txt'', Location = ''out/q/x.txt'', ModTime = 2, New = True\<rparr>"
proof -
  have 1: "fst (main sim_os world0) = Finished" by code_simp
  have 2: "renames (events (snd (main sim_os world0))) =
       [(''out/p/x.txt'', ''out/trash/x.20240102030405.txt''),
        (''out/q/x.txt'', ''out/trash/x.20240102030405.txt'')]" by code_simp
  have 3: "map_of (sim_files (world (snd (main sim_os world0)))) ''out/trash/x.20240102030405.txt'' =
       Some ''Q''" by code_simp
  have 4: "''P'' \<notin> snd ` set (sim_files (world (snd (main sim_os world0))))" by code_simp
  have 5: "Name \<lparr>Name = ''x.txt'', Location = ''out/p/x.txt'', ModTime = 1, New = True\<rparr> =
           Name \<lparr>Name = ''x.txt'', Location = ''out/q/x.txt'', ModTime = 2, New = True\<rparr>"
    by simp
  show ?thesis
    using 1 2 3 4
      same_name_same_trash_path[where
        a = "\<lparr>Name = ''x.txt'', Location = ''out/p/x.txt'', ModTime = 1, New = True\<rparr>" and
        b = "\<lparr>Name = ''x.txt'', Location = ''out/q/x.txt'', ModTime = 2, New = True\<rparr>" and
        trashPath = "''out/trash''" and processStart = start0] 5
    by blast
qed

section \<open>A failed copy and a failed directory creation\<close>

lemma createIfNotExist_ok:
  assumes "\<forall>dir w. fst (os_MkdirAll os dir w) = None"
  shows "fst (createIfNotExist os dir st) = None"
proof -
  have "fst (os_MkdirAll os dir (world st)) = None"
    using assms by blast
  then show ?thesis
    by (auto simp: createIfNotExist_def split: prod.splits)
qed

lemma trash_body_ok:
  assumes "\<forall>dir w. fst (os_MkdirAll os dir w) = None"
  shows "fst (trash_body os config m tp ps x st) = None"
proof (cases "orphan config m x")
  case False
  then show ?thesis by (simp add: trash_body_skip)
next
  case True
  then show ?thesis
    using createIfNotExist_ok[OF assms, of "Dir (newPath tp ps x)" st]
    by (auto simp: trash_body_orphan split: prod.splits option.splits)
qed

lemma trash_loop_ok:
  assumes "\<forall>dir w. fst (os_MkdirAll os dir w) = None"
  shows "fst (trash_loop os config m tp ps outs st) = None"
proof (induction outs arbitrary: st)
  case Nil
  show ?case by simp
next
  case (Cons x rest)
  show ?case
    using trash_body_ok[OF assms, of config m tp ps x st] Cons
    by (auto split: prod.splits option.splits)
qed

lemma copy_loop_ok:
  assumes "\<forall>dir w. fst (os_MkdirAll os dir w) = None"
  shows "fst (copy_loop os config ins st) = None"
proof (induction ins arbitrary: st)
  case Nil
  show ?case by simp
next
  case (Cons x rest)
  have "fst (copy_body os config x st) = None"
    using createIfNotExist_ok[OF assms] by (simp add: copy_body_stops_only_at_mkdir)
  then show ?case
    using Cons by (auto split: prod.splits option.splits)
qed

lemma sync_reaches_persist:
  assumes mk: "\<forall>dir w. fst (os_MkdirAll os dir w) = None"
    and lg: "fst (os_OpenLog os (world st)) = None"
  shows "\<exists>st2. sync os config tp ps st = persist os ps st2 \<and>
           renames (events st2) =
             renames (events st) @
             map (\<lambda>x. (Location x, newPath tp ps x))
               (orphans config (inFilesMap_of os config (world st))
                  (filesInOutputPath_of os config (world st))) \<and>
           copies (events st2) =
             copies (events st) @
             map (\<lambda>f. (source_of config f, destination_of config f))
               (to_copy (filesInInputPath_of os config (world st))) \<and>
           writes (events st2) = writes (events st)"
proof -
  obtain w where ol: "os_OpenLog os (world st) = (None, w)"
    using lg by (cases "os_OpenLog os (world st)") auto
  let ?st0 = "st\<lparr>world := w\<rparr>"
  obtain st1 where tl: "trash_loop os config (inFilesMap_of os config (world st)) tp ps
                  (filesInOutputPath_of os config (world st)) ?st0 = (None, st1)"
    using trash_loop_ok[OF mk, of config "inFilesMap_of os config (world st)" tp ps
        "filesInOutputPath_of os config (world st)" ?st0]
    by (metis prod.collapse)
  obtain st2 where cl: "copy_loop os config (filesInInputPath_of os config (world st)) st1 = (None, st2)"
    using copy_loop_ok[OF mk, of config "filesInInputPath_of os config (world st)" st1]
    by (metis prod.collapse)
  have s: "sync os config tp ps st = persist os ps st2"
    by (simp add: sync_unfold ol tl cl)
  show ?thesis
    using s trash_loop_events[OF tl] copy_loop_events[OF cl] by auto
qed

lemma sync_exit_no_write:
  assumes "fst (sync os config tp ps st) = Exit1"
  shows "writes (events (snd (sync os config tp ps st))) = writes (events st)"
proof -
  obtain e w where ol: "os_OpenLog os (world st) = (e, w)"
    by (cases "os_OpenLog os (world st)") auto
  show ?thesis
  proof (cases e)
    case (Some err)
    then show ?thesis using assms ol by (simp add: sync_unfold)
  next
    case None
    let ?st0 = "st\<lparr>world := w\<rparr>"
    obtain r1 st1 where tl: "trash_loop os config (inFilesMap_of os config (world st)) tp ps
                  (filesInOutputPath_of os config (world st)) ?st0 = (r1, st1)"
      by (metis prod.collapse)
    note te = trash_loop_events[OF tl]
    show ?thesis
    proof (cases r1)
      case (Some out)
      then show ?thesis using ol None tl te by (simp add: sync_unfold)
    next
      case n1: None
      obtain r2 st2 where cl: "copy_loop os config (filesInInputPath_of os config (world st)) st1 = (r2, st2)"
        by (metis prod.collapse)
      note ce = copy_loop_events[OF cl]
      show ?thesis
      proof (cases r2)
        case (Some out)
        then show ?thesis using ol None tl te n1 cl ce by (simp add: sync_unfold)
      next
        case n2: None
        obtain out st3 where p: "persist os ps st2 = (out, st3)" by (metis prod.collapse)
        have "out \<noteq> Exit1" using persist_events(2)[OF p] by auto
        then show ?thesis using assms ol None tl n1 cl n2 p by (simp add: sync_unfold)
      qed
    qed
  qed
qed

text \<open>
  C3, as the specification states it, fails. In the second example world, with the
  directory \<open>out/s\<close> impossible to create, the run ends with exit status 1 at the first
  input file: \<open>z.txt\<close>, which qualifies and could be copied, is not, and \<open>time.txt\<close> is
  not written.
\<close>

theorem mkdir_failure_counterexample:
  "map Location (to_copy (filesInInputPath_of sim_os config0 (world1\<lparr>sim_nomkdir := [''out/s'']\<rparr>))) =
     [''in/s/b.txt'', ''in/z.txt'']
   \<and> fst (main sim_os (world1\<lparr>sim_nomkdir := [''out/s'']\<rparr>)) = Exit1
   \<and> events (snd (main sim_os (world1\<lparr>sim_nomkdir := [''out/s'']\<rparr>))) = [EvMkdirAll ''out/s'']
   \<and> copies (events (snd (main sim_os (world1\<lparr>sim_nomkdir := [''out/s'']\<rparr>)))) = []
   \<and> writes (events (snd (main sim_os (world1\<lparr>sim_nomkdir := [''out/s'']\<rparr>)))) = []
   \<and> sim_saved (world (snd (main sim_os (world1\<lparr>sim_nomkdir := [''out/s'']\<rparr>)))) = None
   \<and> map_of (sim_files (world (snd (main sim_os (world1\<lparr>sim_nomkdir := [''out/s'']\<rparr>)))))
        ''out/z.txt'' = None"
  by code_simp

lemma sync_not_exit:
  assumes lg: "fst (os_OpenLog os (world st)) = None"
    and ne: "fst (sync os config tp ps st) \<noteq> Exit1"
  shows "\<exists>st2. sync os config tp ps st = persist os ps st2 \<and>
           renames (events st2) =
             renames (events st) @
             map (\<lambda>x. (Location x, newPath tp ps x))
               (orphans config (inFilesMap_of os config (world st))
                  (filesInOutputPath_of os config (world st))) \<and>
           copies (events st2) =
             copies (events st) @
             map (\<lambda>f. (source_of config f, destination_of config f))
               (to_copy (filesInInputPath_of os config (world st))) \<and>
           writes (events st2) = writes (events st)"
proof -
  obtain w where ol: "os_OpenLog os (world st) = (None, w)"
    using lg by (cases "os_OpenLog os (world st)") auto
  let ?st0 = "st\<lparr>world := w\<rparr>"
  obtain r1 st1 where tl: "trash_loop os config (inFilesMap_of os config (world st)) tp ps
                  (filesInOutputPath_of os config (world st)) ?st0 = (r1, st1)"
    by (metis prod.collapse)
  note te = trash_loop_events[OF tl]
  have r1: "r1 = None"
  proof (cases r1)
    case (Some x)
    then show ?thesis using ne ol tl te by (auto simp: sync_unfold)
  qed simp
  obtain r2 st2 where cl: "copy_loop os config (filesInInputPath_of os config (world st)) st1 = (r2, st2)"
    by (metis prod.collapse)
  note ce = copy_loop_events[OF cl]
  have r2: "r2 = None"
  proof (cases r2)
    case (Some x)
    then show ?thesis using ne ol tl r1 cl ce by (auto simp: sync_unfold)
  qed simp
  have s: "sync os config tp ps st = persist os ps st2"
    using ol tl r1 cl r2 by (simp add: sync_unfold)
  show ?thesis
    using s te ce r1 r2 by auto
qed

lemma copy_body_exit_iff:
  "fst (copy_body os config input st) = Some Exit1 \<longleftrightarrow>
     New input \<and> os_StatNotExist os (Dir (destination_of config input)) (world st) \<and>
     fst (os_MkdirAll os (Dir (destination_of config input)) (world st)) \<noteq> None"
  by (simp add: copy_body_stops_only_at_mkdir createIfNotExist_exit)

lemma copy_body_outcomes:
  "fst (copy_body os config input st) = None \<or> fst (copy_body os config input st) = Some Exit1"
proof -
  obtain r st1 where c: "createIfNotExist os (Dir (destination_of config input)) st = (r, st1)"
    by (metis prod.collapse)
  show ?thesis
    using createIfNotExist_events(4)[OF c] c
    by (auto simp: copy_body_stops_only_at_mkdir)
qed

text \<open>
  C3, amended. A failed \<open>copyFile\<close> never ends the run: the body of the copy loop ends
  the process, with exit status 1, exactly when the record is new and its destination
  directory is reported missing and cannot be created. In a run whose log opens and that
  does not end with exit status 1, \<open>copyFile\<close> is started for every input record that is
  new, whatever the copies return, and the run goes on to the write of \<open>time.txt\<close>. In
  the small file system a copy whose source can be read, whose destination is another path
  and whose destination directory is ready puts the content of the source at the
  destination. When the destination directory of a new record is missing and cannot be
  created, the loop ends there with exit status 1 and starts no copy; a run that ends with
  exit status 1 has not written \<open>time.txt\<close>.
\<close>

theorem copy_failure_is_isolated:
  "(fst (copy_body os config input st) = None \<or>
      fst (copy_body os config input st) = Some Exit1)
   \<and> (fst (copy_body os config input st) = Some Exit1 \<longleftrightarrow>
        New input \<and> os_StatNotExist os (Dir (destination_of config input)) (world st) \<and>
        fst (os_MkdirAll os (Dir (destination_of config input)) (world st)) \<noteq> None)
   \<and> (fst (os_OpenLog os (world st)) = None \<and> fst (sync os config tp ps st) \<noteq> Exit1 \<longrightarrow>
        (\<exists>st2. sync os config tp ps st = persist os ps st2 \<and>
           copies (events st2) =
             copies (events st) @
             map (\<lambda>f. (source_of config f, destination_of config f))
               (to_copy (filesInInputPath_of os config (world st))) \<and>
           writes (events (snd (sync os config tp ps st))) = writes (events st) @ [ps]))
   \<and> (New input \<and> map_of (sim_files (world s)) (source_of config input) = Some c \<and>
      source_of config input \<noteq> destination_of config input \<and>
      dir_ready (world s) (Dir (destination_of config input)) \<longrightarrow>
        (\<exists>s'. copy_body sim_os config input s = (None, s') \<and>
           map_of (sim_files (world s')) (destination_of config input) = Some c))
   \<and> (New input \<and> os_StatNotExist os (Dir (destination_of config input)) (world st) \<and>
      fst (os_MkdirAll os (Dir (destination_of config input)) (world st)) \<noteq> None \<longrightarrow>
        fst (copy_loop os config (input # rest) st) = Some Exit1 \<and>
        copies (events (snd (copy_loop os config (input # rest) st))) = copies (events st))
   \<and> (fst (sync os config tp ps st) = Exit1 \<longrightarrow>
        writes (events (snd (sync os config tp ps st))) = writes (events st))"
proof -
  have A: "\<exists>st2. sync os config tp ps st = persist os ps st2 \<and>
           copies (events st2) =
             copies (events st) @
             map (\<lambda>f. (source_of config f, destination_of config f))
               (to_copy (filesInInputPath_of os config (world st))) \<and>
           writes (events (snd (sync os config tp ps st))) = writes (events st) @ [ps]"
    if h: "fst (os_OpenLog os (world st)) = None \<and> fst (sync os config tp ps st) \<noteq> Exit1"
  proof -
    obtain st2 where s: "sync os config tp ps st = persist os ps st2"
      and c: "copies (events st2) =
           copies (events st) @
           map (\<lambda>f. (source_of config f, destination_of config f))
             (to_copy (filesInInputPath_of os config (world st)))"
      and w: "writes (events st2) = writes (events st)"
      using sync_not_exit[OF conjunct1[OF h] conjunct2[OF h]]
      by (elim exE conjE) auto
    have "events (snd (persist os ps st2)) = events st2 @ [EvWriteTime ps]"
      using persist_events(1)[of os ps st2] by (metis prod.collapse)
    then have "writes (events (snd (sync os config tp ps st))) = writes (events st) @ [ps]"
      using s w by (simp add: writes_append)
    then show ?thesis using s c by blast
  qed
  have S: "\<exists>s'. copy_body sim_os config input s = (None, s') \<and>
           map_of (sim_files (world s')) (destination_of config input) = Some c"
    if h: "New input \<and> map_of (sim_files (world s)) (source_of config input) = Some c \<and>
      source_of config input \<noteq> destination_of config input \<and>
      dir_ready (world s) (Dir (destination_of config input))"
    using sim_copy_body[of input s config c] h by blast
  have B: "fst (copy_loop os config (input # rest) st) = Some Exit1 \<and>
        copies (events (snd (copy_loop os config (input # rest) st))) = copies (events st)"
    if h: "New input \<and> os_StatNotExist os (Dir (destination_of config input)) (world st) \<and>
      fst (os_MkdirAll os (Dir (destination_of config input)) (world st)) \<noteq> None"
  proof -
    obtain e w where m: "os_MkdirAll os (Dir (destination_of config input)) (world st) = (Some e, w)"
      using h by (cases "os_MkdirAll os (Dir (destination_of config input)) (world st)") auto
    have "copy_loop os config (input # rest) st =
           (Some Exit1, did (EvMkdirAll (Dir (destination_of config input))) w st)"
      using copy_loop_stops_at_failed_mkdir[of input os config st e w rest] h m by blast
    then show ?thesis
      by (simp add: did_simps copies_append)
  qed
  have C: "writes (events (snd (sync os config tp ps st))) = writes (events st)"
    if "fst (sync os config tp ps st) = Exit1"
    using sync_exit_no_write that by blast
  show ?thesis
    using copy_body_outcomes[of os config input st] copy_body_exit_iff[of os config input st]
      A S B C
    by blast
qed

text \<open>
  In the second example world \<open>in/s/b.txt\<close> cannot be opened. The run finishes: the copy
  of \<open>b.txt\<close> fails and is logged, \<open>z.txt\<close> is copied with its content and the start
  time is written. In the same file system with \<open>out/s\<close> impossible to create, the loop
  exits at \<open>b.txt\<close>.
\<close>

theorem copy_failure_is_isolated_witness:
  "fst (sync sim_os config0 ''out/trash'' start0 \<lparr>world = world1, events = []\<rparr>) = Finished
   \<and> (\<exists>st2. sync sim_os config0 ''out/trash'' start0 \<lparr>world = world1, events = []\<rparr> =
           persist sim_os start0 st2
         \<and> copies (events st2) =
             [(''in/s/b.txt'', ''out/s/b.txt''), (''in/z.txt'', ''out/z.txt'')])
   \<and> events (snd (sync sim_os config0 ''out/trash'' start0 \<lparr>world = world1, events = []\<rparr>)) =
       [EvMkdirAll ''out/s'', EvCopyFile ''in/s/b.txt'' ''out/s/b.txt'',
        EvLog ''Failed copying file: '' ''b.txt'',
        EvCopyFile ''in/z.txt'' ''out/z.txt'', EvWriteTime start0]
   \<and> map_of (sim_files (world (snd (sync sim_os config0 ''out/trash'' start0
          \<lparr>world = world1, events = []\<rparr>)))) ''out/z.txt'' = Some ''Z''
   \<and> map_of (sim_files (world (snd (sync sim_os config0 ''out/trash'' start0
          \<lparr>world = world1, events = []\<rparr>)))) ''out/s/b.txt'' = None
   \<and> sim_saved (world (snd (sync sim_os config0 ''out/trash'' start0
          \<lparr>world = world1, events = []\<rparr>))) = Some start0
   \<and> (\<exists>s'. copy_body sim_os config0
              \<lparr>Name = ''z.txt'', Location = ''in/z.txt'', ModTime = 12, New = True\<rparr>
              \<lparr>world = world1, events = []\<rparr> = (None, s')
         \<and> map_of (sim_files (world s')) ''out/z.txt'' = Some ''Z'')
   \<and> fst (copy_loop sim_os config0
            (filesInInputPath_of sim_os config0 (world1\<lparr>sim_nomkdir := [''out/s'']\<rparr>))
            \<lparr>world = world1\<lparr>sim_nomkdir := [''out/s'']\<rparr>, events = []\<rparr>) = Some Exit1"
proof -
  let ?st = "\<lparr>world = world1, events = []\<rparr>"
  let ?z = "\<lparr>Name = ''z.txt'', Location = ''in/z.txt'', ModTime = 12, New = True\<rparr>"
  let ?b = "\<lparr>Name = ''b.txt'', Location = ''in/s/b.txt'', ModTime = 11, New = True\<rparr>"
  let ?w' = "world1\<lparr>sim_nomkdir := [''out/s'']\<rparr>"
  let ?st' = "\<lparr>world = ?w', events = []\<rparr>"
  have fin: "fst (sync sim_os config0 ''out/trash'' start0 ?st) = Finished" by code_simp
  have lg: "fst (os_OpenLog sim_os (world ?st)) = None" by code_simp
  have tc: "map (\<lambda>f. (source_of config0 f, destination_of config0 f))
             (to_copy (filesInInputPath_of sim_os config0 (world ?st))) =
        [(''in/s/b.txt'', ''out/s/b.txt''), (''in/z.txt'', ''out/z.txt'')]"
    by code_simp
  have a: "\<exists>st2. sync sim_os config0 ''out/trash'' start0 ?st = persist sim_os start0 st2
         \<and> copies (events st2) =
             [(''in/s/b.txt'', ''out/s/b.txt''), (''in/z.txt'', ''out/z.txt'')]"
  proof -
    note T = copy_failure_is_isolated[where os = sim_os and st = ?st and config = config0
        and tp = "''out/trash''" and ps = start0 and input = ?z and s = ?st and c = "''Z''"
        and rest = "[]"]
    have ne: "fst (sync sim_os config0 ''out/trash'' start0 ?st) \<noteq> Exit1"
      using fin by simp
    from conjunct1[OF conjunct2[OF conjunct2[OF T]]] lg ne
    obtain st2 where "sync sim_os config0 ''out/trash'' start0 ?st = persist sim_os start0 st2"
      and "copies (events st2) =
             copies (events ?st) @
             map (\<lambda>f. (source_of config0 f, destination_of config0 f))
               (to_copy (filesInInputPath_of sim_os config0 (world ?st)))"
      by blast
    then show ?thesis unfolding tc by auto
  qed
  have b: "events (snd (sync sim_os config0 ''out/trash'' start0 ?st)) =
       [EvMkdirAll ''out/s'', EvCopyFile ''in/s/b.txt'' ''out/s/b.txt'',
        EvLog ''Failed copying file: '' ''b.txt'',
        EvCopyFile ''in/z.txt'' ''out/z.txt'', EvWriteTime start0]"
    by code_simp
  have c: "map_of (sim_files (world (snd (sync sim_os config0 ''out/trash'' start0 ?st)))) ''out/z.txt'' =
       Some ''Z''"
    by code_simp
  have c': "map_of (sim_files (world (snd (sync sim_os config0 ''out/trash'' start0 ?st)))) ''out/s/b.txt'' =
       None"
    by code_simp
  have sv: "sim_saved (world (snd (sync sim_os config0 ''out/trash'' start0 ?st))) = Some start0"
    by code_simp
  have z1: "New ?z" by simp
  have z2: "map_of (sim_files (world ?st)) (source_of config0 ?z) = Some ''Z''" by code_simp
  have z3: "source_of config0 ?z \<noteq> destination_of config0 ?z" by code_simp
  have z4: "dir_ready (world ?st) (Dir (destination_of config0 ?z))" by code_simp
  have z5: "destination_of config0 ?z = ''out/z.txt''" by code_simp
  have z: "\<exists>s'. copy_body sim_os config0 ?z ?st = (None, s')
         \<and> map_of (sim_files (world s')) ''out/z.txt'' = Some ''Z''"
  proof -
    note T = copy_failure_is_isolated[where os = sim_os and st = ?st and config = config0
        and tp = "''out/trash''" and ps = start0 and input = ?z and s = ?st and c = "''Z''"
        and rest = "[]"]
    from conjunct1[OF conjunct2[OF conjunct2[OF conjunct2[OF T]]]] z1 z2 z3 z4
    show ?thesis unfolding z5 by blast
  qed
  have e1: "New ?b" by simp
  have e2: "os_StatNotExist sim_os (Dir (destination_of config0 ?b)) (world ?st')" by code_simp
  have e3: "fst (os_MkdirAll sim_os (Dir (destination_of config0 ?b)) (world ?st')) \<noteq> None"
    by code_simp
  have e4: "filesInInputPath_of sim_os config0 ?w' = [?b, ?z]" by code_simp
  have d: "fst (copy_loop sim_os config0 (filesInInputPath_of sim_os config0 ?w') ?st') = Some Exit1"
  proof -
    note T = copy_failure_is_isolated[where os = sim_os and st = ?st' and config = config0
        and tp = "''out/trash''" and ps = start0 and input = ?b and s = ?st and c = "''Z''"
        and rest = "[?z]"]
    from conjunct1[OF conjunct2[OF conjunct2[OF conjunct2[OF conjunct2[OF T]]]]] e1 e2 e3
    show ?thesis unfolding e4 by blast
  qed
  show ?thesis using fin a b c c' sv z d by blast
qed

section \<open>Orphans and copies of a run\<close>






section \<open>The run state\<close>

lemma gatherFiles_all_new:
  "to_copy (fst (gatherFiles path None n)) = fst (gatherFiles path None n)"
  using gatherFiles_new_rule[of _ path None n]
  by (auto simp: to_copy_def new_rule_def)

text \<open>
  C6. When \<open>time.txt\<close> cannot be read or parsed, no last run is recorded and every record
  of the input scan is new; the run does not fail for it: if no directory creation fails,
  the log opens and \<open>time.txt\<close> can be written, the run finishes with a copy started for
  every file of the input scan. When the write of \<open>time.txt\<close> fails at the end of the
  run, the run is fatal.
\<close>

theorem run_state_rules:
  "((r = TimeReadErr \<or> r = TimeParseErr) \<longrightarrow>
      lastRun_of r = None \<and>
      to_copy (fst (gatherFiles path (lastRun_of r) n)) = fst (gatherFiles path (lastRun_of r) n))
   \<and> ((os_ReadTime os (world st) = TimeReadErr \<or> os_ReadTime os (world st) = TimeParseErr) \<and>
      (\<forall>dir w. fst (os_MkdirAll os dir w) = None) \<and> fst (os_OpenLog os (world st)) = None \<and>
      (\<forall>w. fst (os_WriteTime os ps w) = None) \<longrightarrow>
        fst (sync os config tp ps st) = Finished \<and>
        copies (events (snd (sync os config tp ps st))) =
          copies (events st) @
          map (\<lambda>f. (source_of config f, destination_of config f))
            (filesInInputPath_of os config (world st)))
   \<and> ((\<forall>dir w. fst (os_MkdirAll os dir w) = None) \<and> fst (os_OpenLog os (world st)) = None \<and>
      (\<forall>w. fst (os_WriteTime os ps w) \<noteq> None) \<longrightarrow>
        fst (sync os config tp ps st) = Fatal ''Failed updating time.txt: '')
   \<and> (fst (os_WriteTime os ps (world st2)) \<noteq> None \<longrightarrow>
        fst (persist os ps st2) = Fatal ''Failed updating time.txt: '')"
proof -
  have A: "lastRun_of r = None \<and>
      to_copy (fst (gatherFiles path (lastRun_of r) n)) = fst (gatherFiles path (lastRun_of r) n)"
    if "r = TimeReadErr \<or> r = TimeParseErr"
    using that by (auto simp: lastRun_of_def gatherFiles_all_new)
  have B: "fst (sync os config tp ps st) = Finished \<and>
        copies (events (snd (sync os config tp ps st))) =
          copies (events st) @
          map (\<lambda>f. (source_of config f, destination_of config f))
            (filesInInputPath_of os config (world st))"
    if h: "(os_ReadTime os (world st) = TimeReadErr \<or> os_ReadTime os (world st) = TimeParseErr) \<and>
      (\<forall>dir w. fst (os_MkdirAll os dir w) = None) \<and> fst (os_OpenLog os (world st)) = None \<and>
      (\<forall>w. fst (os_WriteTime os ps w) = None)"
  proof -
    have mk: "\<forall>dir w. fst (os_MkdirAll os dir w) = None" and lg: "fst (os_OpenLog os (world st)) = None"
      using h by blast+
    obtain st3 where s: "sync os config tp ps st = persist os ps st3"
      and c: "copies (events st3) =
             copies (events st) @
             map (\<lambda>f. (source_of config f, destination_of config f))
               (to_copy (filesInInputPath_of os config (world st)))"
      using sync_reaches_persist[OF mk lg, of config tp ps] by (elim exE conjE) auto
    have l: "lastRun_of (os_ReadTime os (world st)) = None"
      using h by (auto simp: lastRun_of_def)
    have t: "to_copy (filesInInputPath_of os config (world st)) = filesInInputPath_of os config (world st)"
      unfolding filesInInputPath_of_def l by (rule gatherFiles_all_new)
    obtain out st4 where p: "persist os ps st3 = (out, st4)" by (metis prod.collapse)
    have w: "fst (os_WriteTime os ps (world st3)) = None" using h by blast
    have f: "out = Finished" using persist_events(3)[OF p] w by simp
    have "events st4 = events st3 @ [EvWriteTime ps]" by (rule persist_events(1)[OF p])
    then show ?thesis using s p f c t by (simp add: copies_append)
  qed
  have C: "fst (sync os config tp ps st) = Fatal ''Failed updating time.txt: ''"
    if h: "(\<forall>dir w. fst (os_MkdirAll os dir w) = None) \<and> fst (os_OpenLog os (world st)) = None \<and>
      (\<forall>w. fst (os_WriteTime os ps w) \<noteq> None)"
  proof -
    have mk: "\<forall>dir w. fst (os_MkdirAll os dir w) = None" and lg: "fst (os_OpenLog os (world st)) = None"
      using h by blast+
    obtain st3 where s: "sync os config tp ps st = persist os ps st3"
      using sync_reaches_persist[OF mk lg, of config tp ps] by (elim exE conjE) auto
    obtain out st4 where p: "persist os ps st3 = (out, st4)" by (metis prod.collapse)
    have w: "fst (os_WriteTime os ps (world st3)) \<noteq> None" using h by blast
    have "out = Fatal ''Failed updating time.txt: ''"
      using persist_events(2,3)[OF p] w by auto
    then show ?thesis using s p by simp
  qed
  have D: "fst (persist os ps st2) = Fatal ''Failed updating time.txt: ''"
    if "fst (os_WriteTime os ps (world st2)) \<noteq> None"
    using that by (auto simp: persist_def split: prod.splits)
  show ?thesis using A B C D by blast
qed

text \<open>
  The second example world with an unparsable \<open>time.txt\<close>: the run finishes and starts a
  copy for both input files. With a \<open>time.txt\<close> that cannot be written the run is fatal.
\<close>

theorem run_state_rules_witness:
  "fst (sync (sim_os\<lparr>os_MkdirAll := (\<lambda>dir w. (None, w\<lparr>sim_dirs := dir # sim_dirs w\<rparr>)),
                     os_WriteTime := (\<lambda>t w. (None, w\<lparr>sim_saved := Some t\<rparr>))\<rparr>)
          config0 ''out/trash'' start0
          \<lparr>world = world1\<lparr>sim_time := TimeParseErr\<rparr>, events = []\<rparr>) = Finished
   \<and> copies (events (snd (sync
          (sim_os\<lparr>os_MkdirAll := (\<lambda>dir w. (None, w\<lparr>sim_dirs := dir # sim_dirs w\<rparr>)),
                   os_WriteTime := (\<lambda>t w. (None, w\<lparr>sim_saved := Some t\<rparr>))\<rparr>)
          config0 ''out/trash'' start0
          \<lparr>world = world1\<lparr>sim_time := TimeParseErr\<rparr>, events = []\<rparr>))) =
       [(''in/s/b.txt'', ''out/s/b.txt''), (''in/z.txt'', ''out/z.txt'')]
   \<and> fst (sync (sim_os\<lparr>os_MkdirAll := (\<lambda>dir w. (None, w\<lparr>sim_dirs := dir # sim_dirs w\<rparr>)),
                       os_WriteTime := (\<lambda>t w. (Some ErrOS, w))\<rparr>)
          config0 ''out/trash'' start0 \<lparr>world = world1, events = []\<rparr>) =
       Fatal ''Failed updating time.txt: ''
   \<and> fst (main sim_os (world1\<lparr>sim_time := TimeReadErr, sim_time_ok := False\<rparr>)) =
       Fatal ''Failed updating time.txt: ''"
proof -
  let ?ok = "sim_os\<lparr>os_MkdirAll := (\<lambda>dir w. (None, w\<lparr>sim_dirs := dir # sim_dirs w\<rparr>)),
                     os_WriteTime := (\<lambda>t w. (None, w\<lparr>sim_saved := Some t\<rparr>))\<rparr>"
  let ?bad = "sim_os\<lparr>os_MkdirAll := (\<lambda>dir w. (None, w\<lparr>sim_dirs := dir # sim_dirs w\<rparr>)),
                       os_WriteTime := (\<lambda>t w. (Some ErrOS, w))\<rparr>"
  let ?st = "\<lparr>world = world1\<lparr>sim_time := TimeParseErr\<rparr>, events = []\<rparr>"
  let ?st1 = "\<lparr>world = world1, events = []\<rparr>"
  have r: "os_ReadTime ?ok (world ?st) = TimeParseErr" by (simp add: sim_os_def)
  have mk: "\<forall>dir w. fst (os_MkdirAll ?ok dir w) = None" by simp
  have lg: "fst (os_OpenLog ?ok (world ?st)) = None" by (simp add: sim_os_def world1_def)
  have wt: "\<forall>w. fst (os_WriteTime ?ok start0 w) = None" by simp
  have fs: "map (\<lambda>f. (source_of config0 f, destination_of config0 f))
            (filesInInputPath_of ?ok config0 (world ?st)) =
         [(''in/s/b.txt'', ''out/s/b.txt''), (''in/z.txt'', ''out/z.txt'')]"
    by code_simp
  have a: "fst (sync ?ok config0 ''out/trash'' start0 ?st) = Finished \<and>
        copies (events (snd (sync ?ok config0 ''out/trash'' start0 ?st))) =
          copies (events ?st) @
          map (\<lambda>f. (source_of config0 f, destination_of config0 f))
            (filesInInputPath_of ?ok config0 (world ?st))"
    using run_state_rules[of _ _ _ ?ok ?st start0 config0 "''out/trash''"] r mk lg wt
    by blast
  have mk': "\<forall>dir w. fst (os_MkdirAll ?bad dir w) = None" by simp
  have lg': "fst (os_OpenLog ?bad (world ?st1)) = None" by (simp add: sim_os_def world1_def)
  have wt': "\<forall>w. fst (os_WriteTime ?bad start0 w) \<noteq> None" by simp
  have b: "fst (sync ?bad config0 ''out/trash'' start0 ?st1) = Fatal ''Failed updating time.txt: ''"
    using run_state_rules[of _ _ _ ?bad ?st1 start0 config0 "''out/trash''"] mk' lg' wt'
    by blast
  have c: "fst (main sim_os (world1\<lparr>sim_time := TimeReadErr, sim_time_ok := False\<rparr>)) =
       Fatal ''Failed updating time.txt: ''"
    by code_simp
  show ?thesis using a b c fs by simp
qed

section \<open>The simpler variant: when a copy is skipped\<close>











section \<open>The scan of the simpler variant\<close>

lemma gather_fn0_strip:
  "gather_fn0 path info err (map strip_New files) =
     (case gather_fn lr path info err files of (e, fs) \<Rightarrow> (e, map strip_New fs))"
  by (auto simp: gather_fn0_def gather_fn_def visitFileInfos0_def visitFileInfos_def strip_New_def
      split: option.splits)

lemma walk_strip:
  shows "walk gather_fn0 path n (map strip_New files) =
           (case walk (gather_fn lr) path n files of (e, fs) \<Rightarrow> (e, map strip_New fs))"
    and "walk_names gather_fn0 path es (map strip_New files) =
           (case walk_names (gather_fn lr) path es files of (e, fs) \<Rightarrow> (e, map strip_New fs))"
proof (induction n and es arbitrary: path files and path files
       rule: files_under_files_under_list.induct)
  case (1 t)
  show ?case by (simp add: gather_fn0_strip[of _ _ _ _ lr])
next
  case (2 t es)
  show ?case
    using 2[of path]
    by (auto simp: gather_fn0_strip[of _ _ _ _ lr] split: prod.splits option.splits)
next
  case (3 t)
  show ?case by (simp add: gather_fn0_strip[of _ _ _ _ lr])
next
  case 4
  show ?case by (simp add: gather_fn0_strip[of _ _ _ _ lr])
next
  case 5
  show ?case by simp
next
  case (6 name n es)
  let ?f = "Join [path, name]"
  obtain e fs where w: "walk (gather_fn lr) ?f n files = (e, fs)"
    by (metis prod.collapse)
  have w0: "walk gather_fn0 ?f n (map strip_New files) = (e, map strip_New fs)"
    using 6(1)[of ?f files] w by simp
  obtain e2 fs2 where r: "walk_names (gather_fn lr) path es fs = (e2, fs2)"
    by (metis prod.collapse)
  have r0: "walk_names gather_fn0 path es (map strip_New fs) = (e2, map strip_New fs2)"
    using 6(2)[of path fs] r by simp
  have m: "n = Missing \<Longrightarrow> gather_fn lr ?f None (Some ErrOS) files = (e, fs)"
    using w by simp
  have m0: "n = Missing \<Longrightarrow> gather_fn0 ?f None (Some ErrOS) (map strip_New files) = (e, map strip_New fs)"
    using w0 by simp
  show ?case
    using w w0 r r0 m m0
    by (cases n; cases e) (auto simp: Let_def)
qed

lemma gatherFiles0_strip:
  "gatherFiles0 path n =
     (map strip_New (fst (gatherFiles path lastRun n)), snd (gatherFiles path lastRun n))"
proof -
  obtain e fs where g: "gather_fn lastRun path None (Some ErrOS) [] = (e, fs)"
    by (metis prod.collapse)
  have g0: "gather_fn0 path None (Some ErrOS) [] = (e, map strip_New fs)"
    using gather_fn0_strip[of path None "Some ErrOS" "[]" lastRun] g by simp
  obtain e' fs' where w: "walk (gather_fn lastRun) path n [] = (e', fs')"
    by (metis prod.collapse)
  have w0: "walk gather_fn0 path n [] = (e', map strip_New fs')"
    using walk_strip(1)[of path n "[]" lastRun] w by simp
  have "Walk path gather_fn0 n [] =
          (case Walk path (gather_fn lastRun) n [] of (e, fs) \<Rightarrow> (e, map strip_New fs))"
  proof (cases n)
    case Missing
    then show ?thesis by (simp add: Walk_def g g0)
  next
    case (File t)
    then show ?thesis using w w0 by (simp add: Walk_def del: walk.simps)
  next
    case (Directory t es)
    then show ?thesis using w w0 by (simp add: Walk_def del: walk.simps)
  next
    case (Unreadable t)
    then show ?thesis using w w0 by (simp add: Walk_def del: walk.simps)
  qed
  then show ?thesis
    by (simp add: gatherFiles0_def gatherFiles_def split: prod.splits)
qed

lemma placed_strip_New: "placed root n f \<Longrightarrow> placed root n (strip_New f)"
  by (simp add: placed_def strip_New_def)

text \<open>
  The scan of the simpler variant is the scan of main.go without \<open>New\<close>; so what holds
  of the records of one holds of the records of the other.
\<close>

lemma gatherFiles0_placed:
  assumes "f \<in> set (fst (gatherFiles0 root n))"
  shows "placed root n f"
proof -
  obtain g where "g \<in> set (fst (gatherFiles root None n))" and "f = strip_New g"
    using assms by (auto simp: gatherFiles0_strip[of root n None])
  then show ?thesis
    using gatherFiles_placed[of g root None n] placed_strip_New by blast
qed

lemma gatherFiles0_trash_file:
  "gatherFiles0 root (Directory t (before @ (''trash'', File u) # after)) =
     gatherFiles0 root (Directory t before)"
  by (simp add: gatherFiles0_strip[of root _ None] gatherFiles_trash_file)

lemma gatherFiles0_no_error: "snd (gatherFiles0 path n) = None"
  by (simp add: gatherFiles0_strip[of path n None] gatherFiles_no_error)

end
